theory Spec2Isabelle
  imports Complex_Main "HOL-Library.Word"
begin

unbundle bit_operations_syntax

section \<open>Shared conventions\<close>

text \<open>
  The development follows three source files of the backend:
  \<^verbatim>\<open>src/services/gps_service.py\<close> (tracking history and route analysis, with
  \<^verbatim>\<open>set_tenant_context\<close> of \<^verbatim>\<open>src/core/security.py\<close>),
  \<^verbatim>\<open>database_optimizer.py\<close> (batch buffer, upsert, track and statistics queries) and
  \<^verbatim>\<open>redis_optimizer.py\<close> (point codec, write buffer, cache flush).

  A \<^verbatim>\<open>datetime\<close> is an integer number of microseconds since the epoch (its resolution
  in Python and in PostgreSQL). In the analytics and SQL parts a Python \<^verbatim>\<open>float\<close>, a
  \<^verbatim>\<open>Decimal\<close> and a \<^verbatim>\<open>DOUBLE PRECISION\<close> column are real numbers and every
  operation on them is the exact one: the model says what the code computes up to the
  rounding of binary floating point. In the route examples all points are at one place
  and the speeds and minutes are small whole numbers, so that the floating-point results
  are the exact ones. In the point codec, where rounding is the subject, a \<^verbatim>\<open>float\<close> is its
  64-bit IEEE-754 pattern and a \<^verbatim>\<open>numpy.float32\<close> its 32-bit pattern.
\<close>

datatype error =
    GPSServiceError
  | ValueError
  | IndexError
  | TypeError
  | DatabaseError
  | DataError

type_synonym datetime = int

definition total_seconds :: "int \<Rightarrow> real" where
  "total_seconds delta = real_of_int delta / 1000000"

text \<open>Python's \<^verbatim>\<open>int(x)\<close> on a float truncates towards zero.\<close>

definition py_int :: "real \<Rightarrow> int" where
  "py_int x = (if 0 \<le> x then \<lfloor>x\<rfloor> else \<lceil>x\<rceil>)"

text \<open>
  Python's \<^verbatim>\<open>round(x, 2)\<close> of the number \<open>x\<close>: the nearest multiple of 1/100, ties to
  the even one.
\<close>

definition py_round2 :: "real \<Rightarrow> real" where
  "py_round2 x =
     (let y = x * 100; f = \<lfloor>y\<rfloor>; d = y - of_int f
      in of_int (if d < 1 / 2 then f
                 else if 1 / 2 < d then f + 1
                 else if even f then f else f + 1) / 100)"

section \<open>GPS service: tracking history and route analysis\<close>

text \<open>
  A row of the table \<^verbatim>\<open>gps_locations\<close> (\<^verbatim>\<open>models/gps.py\<close>), with the columns the service
  reads. Identifiers are of a type \<open>'u\<close> of parsed UUIDs; \<^verbatim>\<open>uuid.UUID(s)\<close> is library code
  and enters the model as the parameter \<open>UUID\<close>, which returns \<open>None\<close> where the library
  raises. The nullable column \<^verbatim>\<open>speed\<close> is an option.
\<close>

record 'u GPSLocation =
  shipment_id :: "'u option"
  vehicle_id :: "'u option"
  latitude :: real
  longitude :: real
  gps_time :: datetime
  speed :: "real option"
  is_valid :: string

record TrackingFilter =
  filter_shipment_id :: "string option"
  filter_vehicle_id :: "string option"
  time_from :: "datetime option"
  time_to :: "datetime option"
  min_speed :: "real option"
  filter_max_speed :: "real option"

record RouteAnalysis =
  total_distance :: real
  total_duration :: int
  average_speed :: real
  max_speed :: real
  stop_count :: int
  stop_duration :: int

text \<open>
  \<^verbatim>\<open>GPSService._calculate_distance\<close>: the haversine formula, earth radius 6371 km.
  \<^verbatim>\<open>math.sqrt\<close> raises \<^verbatim>\<open>ValueError\<close> on a negative number and \<^verbatim>\<open>math.asin\<close> on a
  number above 1.
\<close>

definition radians :: "real \<Rightarrow> real" where
  "radians x = x * pi / 180"

definition calculate_distance :: "real \<Rightarrow> real \<Rightarrow> real \<Rightarrow> real \<Rightarrow> error + real" where
  "calculate_distance lat1' lon1' lat2' lon2' =
     (let lat1 = radians lat1'; lon1 = radians lon1';
          lat2 = radians lat2'; lon2 = radians lon2';
          dlat = lat2 - lat1;
          dlon = lon2 - lon1;
          a = (sin (dlat / 2))\<^sup>2 + cos lat1 * cos lat2 * (sin (dlon / 2))\<^sup>2
      in if a < 0 then Inl ValueError
         else if 1 < sqrt a then Inl ValueError
         else
           let c = 2 * arcsin (sqrt a);
               r = 6371
           in Inr (c * r))"

text \<open>
  An optional string of a filter counts only when it is neither \<^verbatim>\<open>None\<close> nor empty
  (\<^verbatim>\<open>if filters.shipment_id:\<close>); it is then parsed, and a parse failure raises.
\<close>

definition id_condition :: "(string \<Rightarrow> 'u option) \<Rightarrow> string option \<Rightarrow> error + 'u option" where
  "id_condition UUID s =
     (case s of
        None \<Rightarrow> Inr None
      | Some str \<Rightarrow>
          if str = [] then Inr None
          else (case UUID str of None \<Rightarrow> Inl ValueError | Some u \<Rightarrow> Inr (Some u)))"

text \<open>
  The \<^verbatim>\<open>WHERE\<close> clause of \<^verbatim>\<open>get_tracking_history\<close>. A comparison with a \<^verbatim>\<open>NULL\<close> column is
  not true in SQL, so a row without the column fails the condition.
\<close>

definition history_where ::
  "'u option \<Rightarrow> 'u option \<Rightarrow> TrackingFilter option \<Rightarrow> 'u GPSLocation \<Rightarrow> bool" where
  "history_where sid vid filters g =
     (is_valid g = ''1'' \<and>
      (case filters of
         None \<Rightarrow> True
       | Some f \<Rightarrow>
           (case sid of None \<Rightarrow> True | Some u \<Rightarrow> shipment_id g = Some u) \<and>
           (case vid of None \<Rightarrow> True | Some u \<Rightarrow> vehicle_id g = Some u) \<and>
           (case time_from f of None \<Rightarrow> True | Some t \<Rightarrow> t \<le> gps_time g) \<and>
           (case time_to f of None \<Rightarrow> True | Some t \<Rightarrow> gps_time g \<le> t) \<and>
           (case min_speed f of None \<Rightarrow> True
            | Some m \<Rightarrow> (case speed g of None \<Rightarrow> False | Some s \<Rightarrow> m \<le> s)) \<and>
           (case filter_max_speed f of None \<Rightarrow> True
            | Some m \<Rightarrow> (case speed g of None \<Rightarrow> False | Some s \<Rightarrow> s \<le> m))))"

text \<open>
  \<^verbatim>\<open>core.security.set_tenant_context\<close> executes the statement
  \<^verbatim>\<open>SET app.current_tenant_id = :tenant_id\<close> with the tenant id as a bind parameter. The
  engine is \<^verbatim>\<open>postgresql+asyncpg\<close> (\<^verbatim>\<open>core/config.py\<close>): the driver sends a statement
  that has bind parameters with a placeholder \<^verbatim>\<open>$1\<close> for each, and PostgreSQL takes a
  placeholder only in a statement with expressions to plan (\<^verbatim>\<open>SELECT\<close>, \<^verbatim>\<open>INSERT\<close>,
  \<^verbatim>\<open>UPDATE\<close>, \<^verbatim>\<open>DELETE\<close>), not in \<^verbatim>\<open>SET\<close>, which it refuses with a syntax error.
  A statement is modelled by its kind and its bind parameters.
\<close>

datatype statement_kind = Select_statement | Insert_statement | Set_statement

record statement =
  stmt_kind :: statement_kind
  stmt_parameters :: "(string \<times> string) list"

definition session_execute :: "statement \<Rightarrow> error option" where
  "session_execute stmt =
     (if stmt_kind stmt = Set_statement \<and> stmt_parameters stmt \<noteq> []
      then Some DatabaseError else None)"

definition set_tenant_context :: "string \<Rightarrow> error option" where
  "set_tenant_context tenant_id =
     session_execute
       \<lparr>stmt_kind = Set_statement, stmt_parameters = [(''tenant_id'', tenant_id)]\<rparr>"

text \<open>
  \<^verbatim>\<open>GPSService.get_tracking_history\<close>. It sets the tenant context first; then it queries
  the rows visible to the tenant, which are the list \<open>session\<close>. \<^verbatim>\<open>ORDER BY gps_time\<close>
  leaves the order of equal times open; the model takes the stable one. Any exception is
  re-raised as \<^verbatim>\<open>GPSServiceError\<close>.
\<close>

definition get_tracking_history ::
  "(string \<Rightarrow> 'u option) \<Rightarrow> 'u GPSLocation list \<Rightarrow> string \<Rightarrow> TrackingFilter option \<Rightarrow> nat
     \<Rightarrow> error + 'u GPSLocation list" where
  "get_tracking_history UUID session tenant_id filters limit =
     (case set_tenant_context tenant_id of
        Some e \<Rightarrow> Inl GPSServiceError
      | None \<Rightarrow>
     (case id_condition UUID (case filters of None \<Rightarrow> None | Some f \<Rightarrow> filter_shipment_id f) of
        Inl e \<Rightarrow> Inl GPSServiceError
      | Inr sid \<Rightarrow>
     (case id_condition UUID (case filters of None \<Rightarrow> None | Some f \<Rightarrow> filter_vehicle_id f) of
        Inl e \<Rightarrow> Inl GPSServiceError
      | Inr vid \<Rightarrow>
          Inr (take limit (sort_key gps_time (filter (history_where sid vid filters) session))))))"

text \<open>
  The local variables of the loop of \<^verbatim>\<open>analyze_route\<close>, and one iteration of it for the
  pair \<open>(prev_point, curr_point)\<close>. \<^verbatim>\<open>if curr_point.speed:\<close> is false for \<^verbatim>\<open>None\<close> and for
  a zero \<^verbatim>\<open>Decimal\<close>.
\<close>

record route_locals =
  l_total_distance :: real
  l_max_speed :: real
  l_speeds :: "real list"
  l_stop_count :: int
  l_stop_duration :: int

definition time_diff_minutes :: "'u GPSLocation \<Rightarrow> 'u GPSLocation \<Rightarrow> real" where
  "time_diff_minutes prev_point curr_point =
     total_seconds (gps_time curr_point - gps_time prev_point) / 60"

definition route_step ::
  "route_locals \<Rightarrow> 'u GPSLocation \<Rightarrow> 'u GPSLocation \<Rightarrow> error + route_locals" where
  "route_step l prev_point curr_point =
     (case calculate_distance (latitude prev_point) (longitude prev_point)
             (latitude curr_point) (longitude curr_point) of
        Inl e \<Rightarrow> Inl e
      | Inr distance \<Rightarrow>
          let l1 = l\<lparr>l_total_distance := l_total_distance l + distance\<rparr>
          in case speed curr_point of
               None \<Rightarrow> Inr l1
             | Some sp \<Rightarrow>
                 if sp = 0 then Inr l1
                 else
                   let l2 = l1\<lparr>l_speeds := l_speeds l1 @ [sp],
                              l_max_speed := max (l_max_speed l1) sp\<rparr>
                   in if sp < 5 then
                        let time_diff = time_diff_minutes prev_point curr_point
                        in if 2 < time_diff
                           then Inr (l2\<lparr>l_stop_count := l_stop_count l2 + 1,
                                       l_stop_duration := l_stop_duration l2 + py_int time_diff\<rparr>)
                           else Inr l2
                      else Inr l2)"

fun route_loop ::
  "route_locals \<Rightarrow> 'u GPSLocation \<Rightarrow> 'u GPSLocation list \<Rightarrow> error + route_locals" where
  "route_loop l prev_point [] = Inr l"
| "route_loop l prev_point (curr_point # rest) =
     (case route_step l prev_point curr_point of
        Inl e \<Rightarrow> Inl e
      | Inr l' \<Rightarrow> route_loop l' curr_point rest)"

text \<open>
  The body of \<^verbatim>\<open>analyze_route\<close> from the check of the number of points on
  (\<^verbatim>\<open>gps_service.py\<close>, lines 231 to 283), as a function of the fetched points.
\<close>

definition route_metrics :: "'u GPSLocation list \<Rightarrow> error + RouteAnalysis" where
  "route_metrics gps_points =
     (if length gps_points < 2 then
        Inr \<lparr>total_distance = 0, total_duration = 0, average_speed = 0, max_speed = 0,
             stop_count = 0, stop_duration = 0\<rparr>
      else
        case route_loop
               \<lparr>l_total_distance = 0, l_max_speed = 0, l_speeds = [],
                l_stop_count = 0, l_stop_duration = 0\<rparr>
               (hd gps_points) (tl gps_points) of
          Inl e \<Rightarrow> Inl e
        | Inr l \<Rightarrow>
            let duration = py_int (total_seconds
                             (gps_time (last gps_points) - gps_time (hd gps_points)) / 60);
                average = (if l_speeds l = [] then 0
                           else sum_list (l_speeds l) / real (length (l_speeds l)))
            in Inr \<lparr>total_distance = py_round2 (l_total_distance l),
                    total_duration = duration,
                    average_speed = py_round2 average,
                    max_speed = py_round2 (l_max_speed l),
                    stop_count = l_stop_count l,
                    stop_duration = l_stop_duration l\<rparr>)"

text \<open>
  \<^verbatim>\<open>GPSService.analyze_route\<close>: the history of one shipment between two optional times,
  with the default limit of 1000 rows, then the metrics.
\<close>

definition route_filter :: "string \<Rightarrow> datetime option \<Rightarrow> datetime option \<Rightarrow> TrackingFilter" where
  "route_filter sid tfrom tto =
     \<lparr>filter_shipment_id = Some sid, filter_vehicle_id = None,
      time_from = tfrom, time_to = tto,
      min_speed = None, filter_max_speed = None\<rparr>"

definition analyze_route ::
  "(string \<Rightarrow> 'u option) \<Rightarrow> 'u GPSLocation list \<Rightarrow> string \<Rightarrow> string
     \<Rightarrow> datetime option \<Rightarrow> datetime option \<Rightarrow> error + RouteAnalysis" where
  "analyze_route UUID session tenant_id sid tfrom tto =
     (case get_tracking_history UUID session tenant_id (Some (route_filter sid tfrom tto)) 1000 of
        Inl e \<Rightarrow> Inl GPSServiceError
      | Inr gps_points \<Rightarrow>
          (case route_metrics gps_points of
             Inl e \<Rightarrow> Inl GPSServiceError
           | Inr analysis \<Rightarrow> Inr analysis))"

subsection \<open>Notions of the specification\<close>

text \<open>
  The average speed as the specification words it: the distance over the duration in
  hours, and 0 when the duration is 0.
\<close>

definition spec_average_speed :: "RouteAnalysis \<Rightarrow> real" where
  "spec_average_speed r =
     (if total_duration r = 0 then 0
      else total_distance r / (real_of_int (total_duration r) / 60))"

subsection \<open>Example routes\<close>

text \<open>
  Points of one shipment, all at the same place, \<open>t\<close> minutes after the epoch. In the
  examples a parsed identifier is the string itself, so \<open>Some\<close> does the parsing.
\<close>

definition shipment_1 :: string where
  "shipment_1 = ''00000000-0000-0000-0000-000000000001''"

definition tenant_1 :: string where
  "tenant_1 = ''00000000-0000-0000-0000-0000000000aa''"

definition route_point :: "int \<Rightarrow> real option \<Rightarrow> string GPSLocation" where
  "route_point t s =
     \<lparr>shipment_id = Some shipment_1, vehicle_id = None,
      latitude = 39.9042, longitude = 116.4074,
      gps_time = t * 60000000, speed = s, is_valid = ''1''\<rparr>"

text \<open>The specification's stop example: speed 0 after 10 minutes, speed 60 a minute later.\<close>

definition zero_speed_route :: "string GPSLocation list" where
  "zero_speed_route = [route_point 0 (Some 60), route_point 10 (Some 0), route_point 11 (Some 60)]"

text \<open>The same with a crawl of 3 km/h in place of the standstill.\<close>

definition crawl_route :: "string GPSLocation list" where
  "crawl_route = [route_point 0 (Some 60), route_point 10 (Some 3), route_point 11 (Some 60)]"

text \<open>Two slow gaps of 10 minutes in a row: one maximal run.\<close>

definition two_gap_route :: "string GPSLocation list" where
  "two_gap_route = [route_point 0 (Some 60), route_point 10 (Some 3), route_point 20 (Some 3)]"

text \<open>Parked with a reported speed of 60: an hour apart, and at the same instant.\<close>

definition parked_route :: "string GPSLocation list" where
  "parked_route = [route_point 0 (Some 60), route_point 60 (Some 60)]"

definition instant_route :: "string GPSLocation list" where
  "instant_route = [route_point 0 (Some 60), route_point 0 (Some 60)]"

section \<open>Database optimizer: batch buffer, upsert and queries\<close>

subsection \<open>The partitioned table\<close>

text \<open>
  \<^verbatim>\<open>GPSBatchData\<close>, and a row of \<^verbatim>\<open>gps_locations_partitioned\<close>, which is also the dict that
  \<^verbatim>\<open>add_gps_data\<close> puts into the buffer. The geometry \<^verbatim>\<open>POINT(lng lat)\<close> is the pair of
  its coordinates.
\<close>

record GPSBatchData =
  batch_vehicle_id :: string
  batch_latitude :: real
  batch_longitude :: real
  batch_speed :: real
  batch_direction :: real
  batch_timestamp :: datetime
  batch_accuracy :: real

record gps_row =
  row_vehicle_id :: string
  row_latitude :: real
  row_longitude :: real
  row_speed :: real
  row_direction :: real
  row_timestamp :: datetime
  row_accuracy :: real
  row_geom :: "real \<times> real"

text \<open>
  The table of \<^verbatim>\<open>create_optimized_tables\<close>: its partitions, each a half-open range of
  timestamps, and its rows. The primary key is \<^verbatim>\<open>(vehicle_id, timestamp)\<close>.
\<close>

record gps_table =
  partitions :: "(datetime \<times> datetime) list"
  table_rows :: "gps_row list"

definition row_key :: "gps_row \<Rightarrow> string \<times> datetime" where
  "row_key r = (row_vehicle_id r, row_timestamp r)"

definition primary_key :: "gps_table \<Rightarrow> bool" where
  "primary_key db = distinct (map row_key (table_rows db))"

definition in_partition :: "(datetime \<times> datetime) list \<Rightarrow> datetime \<Rightarrow> bool" where
  "in_partition ps t = list_ex (\<lambda>p. fst p \<le> t \<and> t < snd p) ps"

text \<open>
  \<^verbatim>\<open>INSERT ... ON CONFLICT (vehicle_id, timestamp) DO UPDATE SET ...\<close> on the rows: the
  row with the key of the new one takes its six other columns from it; without such a row
  the new one is added.
\<close>

fun upsert :: "gps_row list \<Rightarrow> gps_row \<Rightarrow> gps_row list" where
  "upsert [] excluded = [excluded]"
| "upsert (r # rows) excluded =
     (if row_key r = row_key excluded then
        r\<lparr>row_latitude := row_latitude excluded,
          row_longitude := row_longitude excluded,
          row_speed := row_speed excluded,
          row_direction := row_direction excluded,
          row_accuracy := row_accuracy excluded,
          row_geom := row_geom excluded\<rparr> # rows
      else r # upsert rows excluded)"

text \<open>
  The statement for one parameter set. The database refuses a \<^verbatim>\<open>vehicle_id\<close> longer than
  the 50 characters of its column and a timestamp that no partition covers.
\<close>

definition insert_on_conflict :: "gps_table \<Rightarrow> gps_row \<Rightarrow> error + gps_table" where
  "insert_on_conflict db r =
     (if 50 < length (row_vehicle_id r) \<or> \<not> in_partition (partitions db) (row_timestamp r)
      then Inl DatabaseError
      else Inr (db\<lparr>table_rows := upsert (table_rows db) r\<rparr>))"

text \<open>
  \<^verbatim>\<open>session.execute(stmt, batch_data)\<close> runs the statement for each dict of the list in
  turn, in one transaction.
\<close>

fun execute_many :: "gps_table \<Rightarrow> gps_row list \<Rightarrow> error + gps_table" where
  "execute_many db [] = Inr db"
| "execute_many db (r # batch) =
     (case insert_on_conflict db r of
        Inl e \<Rightarrow> Inl e
      | Inr db' \<Rightarrow> execute_many db' batch)"

text \<open>
  \<^verbatim>\<open>AsyncBatchProcessor._execute_batch_insert\<close>: the error, if any, and the table after
  the call. On an exception the transaction is rolled back and the exception raised again.
\<close>

definition execute_batch_insert :: "gps_table \<Rightarrow> gps_row list \<Rightarrow> error option \<times> gps_table" where
  "execute_batch_insert db batch_data =
     (if batch_data = [] then (None, db)
      else case execute_many db batch_data of
             Inl e \<Rightarrow> (Some e, db)
           | Inr db' \<Rightarrow> (None, db'))"

subsection \<open>The batch processor\<close>

text \<open>
  \<^verbatim>\<open>AsyncBatchProcessor\<close> with its one buffer for all vehicles and its counters; the clock
  readings (\<^verbatim>\<open>last_flush_time\<close>, \<^verbatim>\<open>processing_times\<close>) are left out. A state of the
  system is the processor and the table; an operation returns the exception it raises, if
  any, and the state it leaves.
\<close>

record batch_processor =
  batch_size :: nat
  batch_buffer :: "gps_row list"
  total_processed :: nat
  batch_count :: nat

definition flush_batch ::
  "batch_processor \<times> gps_table \<Rightarrow> error option \<times> batch_processor \<times> gps_table" where
  "flush_batch s =
     (let p = fst s; db = snd s
      in if batch_buffer p = [] then (None, s)
         else
           let batch_data = batch_buffer p;
               p1 = p\<lparr>batch_buffer := []\<rparr>
           in case execute_batch_insert db batch_data of
                (Some e, db') \<Rightarrow> (Some e, p1, db')
              | (None, db') \<Rightarrow>
                  (None,
                   p1\<lparr>total_processed := total_processed p1 + length batch_data,
                      batch_count := batch_count p1 + 1\<rparr>,
                   db'))"

definition buffer_row :: "GPSBatchData \<Rightarrow> gps_row" where
  "buffer_row gps_data =
     \<lparr>row_vehicle_id = batch_vehicle_id gps_data,
      row_latitude = batch_latitude gps_data,
      row_longitude = batch_longitude gps_data,
      row_speed = batch_speed gps_data,
      row_direction = batch_direction gps_data,
      row_timestamp = batch_timestamp gps_data,
      row_accuracy = batch_accuracy gps_data,
      row_geom = (batch_longitude gps_data, batch_latitude gps_data)\<rparr>"

definition add_gps_data ::
  "GPSBatchData \<Rightarrow> batch_processor \<times> gps_table
     \<Rightarrow> error option \<times> batch_processor \<times> gps_table" where
  "add_gps_data gps_data s =
     (let p = (fst s)\<lparr>batch_buffer := batch_buffer (fst s) @ [buffer_row gps_data]\<rparr>
      in if batch_size p \<le> length (batch_buffer p)
         then flush_batch (p, snd s)
         else (None, p, snd s))"

subsection \<open>Queries\<close>

text \<open>
  \<^verbatim>\<open>GPSQueryOptimizer.get_vehicle_track\<close>, with the reading \<open>now\<close> of the clock. Within one
  vehicle the primary key leaves no two rows with the same timestamp, so the descending
  order is the reverse of the ascending one. The query selects every column but the
  geometry; the model returns the rows as they are.
\<close>

definition hours :: "int \<Rightarrow> int" where
  "hours h = h * 3600000000"

definition get_vehicle_track ::
  "gps_table \<Rightarrow> datetime \<Rightarrow> string \<Rightarrow> datetime option \<Rightarrow> datetime option \<Rightarrow> nat \<Rightarrow> gps_row list" where
  "get_vehicle_track db now vid start_time' end_time' limit =
     (let start_time = (case start_time' of None \<Rightarrow> now - hours 24 | Some t \<Rightarrow> t);
          end_time = (case end_time' of None \<Rightarrow> now | Some t \<Rightarrow> t)
      in take limit
           (rev (sort_key row_timestamp
             (filter (\<lambda>r. row_vehicle_id r = vid \<and>
                          start_time \<le> row_timestamp r \<and> row_timestamp r \<le> end_time)
                (table_rows db)))))"

text \<open>
  \<^verbatim>\<open>GPSQueryOptimizer.get_vehicle_statistics\<close>. For each vehicle the query builds two
  points from the minima and the maxima of the coordinates of the vehicle's rows, takes
  their \<^verbatim>\<open>ST_Distance\<close>, casts the result to \<^verbatim>\<open>geography\<close> and divides by 1000:
  \<^verbatim>\<open>ST_Distance(ST_MakePoint(...), ST_MakePoint(...))::geography / 1000\<close>.

  In PostGIS \<^verbatim>\<open>ST_MakePoint\<close> of two numbers is a \<^verbatim>\<open>geometry\<close> and \<^verbatim>\<open>ST_Distance\<close> of two
  geometries or geographies a \<^verbatim>\<open>double precision\<close> number. There are casts to
  \<^verbatim>\<open>geography\<close> from \<^verbatim>\<open>geometry\<close> and from \<^verbatim>\<open>geography\<close> itself, none from a number, and
  division is defined on numbers only. PostgreSQL resolves the types when it parses the
  statement, before it reads a row, and refuses a statement with a cast or an operator that
  does not exist. \<open>None\<close> stands for no such function, cast or operator.
\<close>

datatype sql_type = Double_precision | Integer | Geometry | Geography

definition numeric_type :: "sql_type \<Rightarrow> bool" where
  "numeric_type t = (t = Double_precision \<or> t = Integer)"

definition ST_MakePoint_type :: "sql_type \<Rightarrow> sql_type \<Rightarrow> sql_type option" where
  "ST_MakePoint_type x y = (if numeric_type x \<and> numeric_type y then Some Geometry else None)"

definition ST_Distance_type :: "sql_type \<Rightarrow> sql_type \<Rightarrow> sql_type option" where
  "ST_Distance_type p q =
     (if numeric_type p \<or> numeric_type q then None else Some Double_precision)"

definition cast_geography_type :: "sql_type \<Rightarrow> sql_type option" where
  "cast_geography_type t = (if numeric_type t then None else Some Geography)"

definition divide_type :: "sql_type \<Rightarrow> sql_type \<Rightarrow> sql_type option" where
  "divide_type x y =
     (if numeric_type x \<and> numeric_type y
      then Some (if x = Integer \<and> y = Integer then Integer else Double_precision)
      else None)"

text \<open>
  The type of the column \<^verbatim>\<open>distance_km\<close>; the aggregates \<^verbatim>\<open>MIN\<close> and \<^verbatim>\<open>MAX\<close> of a
  \<^verbatim>\<open>DOUBLE PRECISION\<close> column are of that type, and 1000 is an integer.
\<close>

definition distance_km_type :: "sql_type option" where
  "distance_km_type =
     Option.bind (ST_MakePoint_type Double_precision Double_precision) (\<lambda>p.
     Option.bind (ST_MakePoint_type Double_precision Double_precision) (\<lambda>q.
     Option.bind (ST_Distance_type p q) (\<lambda>d.
     Option.bind (cast_geography_type d) (\<lambda>g.
       divide_type g Integer))))"

text \<open>
  The values of the same expression. A point is the pair of its coordinates, and
  \<^verbatim>\<open>ST_Distance\<close> of two geometries without a spatial reference is their distance in the
  plane.
\<close>

datatype sql_value =
    Double_value real
  | Geometry_value "real \<times> real"
  | Geography_value "real \<times> real"

definition ST_Distance :: "real \<times> real \<Rightarrow> real \<times> real \<Rightarrow> real" where
  "ST_Distance p q = sqrt ((fst q - fst p)\<^sup>2 + (snd q - snd p)\<^sup>2)"

definition cast_geography :: "sql_value \<Rightarrow> sql_value option" where
  "cast_geography v =
     (case v of
        Double_value d \<Rightarrow> None
      | Geometry_value p \<Rightarrow> Some (Geography_value p)
      | Geography_value p \<Rightarrow> Some (Geography_value p))"

definition divide_value :: "sql_value \<Rightarrow> real \<Rightarrow> real option" where
  "divide_value v n =
     (case v of
        Double_value d \<Rightarrow> Some (d / n)
      | Geometry_value p \<Rightarrow> None
      | Geography_value p \<Rightarrow> None)"

record vehicle_statistics =
  point_count :: nat
  avg_speed :: real
  stats_max_speed :: real
  first_update :: datetime
  last_update :: datetime
  distance_km :: real

text \<open>The coordinates of the two points built for a group of rows.\<close>

definition distance_points :: "gps_row list \<Rightarrow> (real \<times> real) \<times> (real \<times> real)" where
  "distance_points g =
     ((Min (set (map row_longitude g)), Min (set (map row_latitude g))),
      (Max (set (map row_longitude g)), Max (set (map row_latitude g))))"

definition distance_km_value :: "gps_row list \<Rightarrow> real option" where
  "distance_km_value g =
     Option.bind
       (cast_geography
          (Double_value (ST_Distance (fst (distance_points g)) (snd (distance_points g)))))
       (\<lambda>v. divide_value v 1000)"

text \<open>\<^verbatim>\<open>float(x) if x else 0\<close> on a column of the result.\<close>

definition or_zero :: "real \<Rightarrow> real" where
  "or_zero x = (if x \<noteq> 0 then x else 0)"

definition group_statistics :: "gps_row list \<Rightarrow> error + vehicle_statistics" where
  "group_statistics g =
     (case distance_km_value g of
        None \<Rightarrow> Inl DatabaseError
      | Some d \<Rightarrow>
          Inr \<lparr>point_count = length g,
               avg_speed = or_zero (sum_list (map row_speed g) / real (length g)),
               stats_max_speed = or_zero (Max (set (map row_speed g))),
               first_update = Min (set (map row_timestamp g)),
               last_update = Max (set (map row_timestamp g)),
               distance_km = or_zero d\<rparr>)"

definition statistics_window :: "gps_table \<Rightarrow> datetime \<Rightarrow> string \<Rightarrow> gps_row list" where
  "statistics_window db since_time vid =
     filter (\<lambda>r. row_vehicle_id r = vid \<and> since_time \<le> row_timestamp r) (table_rows db)"

fun collect_statistics ::
  "(string \<times> gps_row list) list \<Rightarrow> error + (string \<times> vehicle_statistics) list" where
  "collect_statistics [] = Inr []"
| "collect_statistics ((vid, g) # groups) =
     (case group_statistics g of
        Inl e \<Rightarrow> Inl e
      | Inr st \<Rightarrow>
          (case collect_statistics groups of
             Inl e \<Rightarrow> Inl e
           | Inr stats \<Rightarrow> Inr ((vid, st) # stats)))"

text \<open>
  The call, with the reading \<open>now\<close> of the clock: the statement is parsed, then run on
  the groups of rows of the listed vehicles since \<open>since_time\<close>, and the result rows are
  put into a dict.
\<close>

definition get_vehicle_statistics ::
  "gps_table \<Rightarrow> datetime \<Rightarrow> string list \<Rightarrow> int \<Rightarrow> error + (string \<rightharpoonup> vehicle_statistics)" where
  "get_vehicle_statistics db now vehicle_ids time_window_hours =
     (let since_time = now - hours time_window_hours
      in if distance_km_type = None then Inl DatabaseError
         else
           let groups = filter (\<lambda>vg. snd vg \<noteq> [])
                          (map (\<lambda>vid. (vid, statistics_window db since_time vid))
                             (remdups vehicle_ids))
           in case collect_statistics groups of
                Inl e \<Rightarrow> Inl e
              | Inr stats \<Rightarrow> Inr (map_of stats))"

subsection \<open>Notions of the specification and example data\<close>

text \<open>
  The two points of the displacement as the specification words it: the earliest and the
  latest point of the window.
\<close>

definition row_coordinates :: "gps_row \<Rightarrow> real \<times> real" where
  "row_coordinates r = (row_longitude r, row_latitude r)"

definition spec_displacement_points :: "gps_row list \<Rightarrow> (real \<times> real) \<times> (real \<times> real)" where
  "spec_displacement_points g =
     (row_coordinates (hd (sort_key row_timestamp g)),
      row_coordinates (last (sort_key row_timestamp g)))"

text \<open>
  A table with the partition of the first day and no rows; a row of vehicle \<open>vid\<close> at
  second \<open>t\<close> of that day at the given longitude and latitude; a fresh processor with the
  default batch size of 500.
\<close>

definition first_day_table :: gps_table where
  "first_day_table = \<lparr>partitions = [(0, 86400000000)], table_rows = []\<rparr>"

definition row_at :: "string \<Rightarrow> int \<Rightarrow> real \<Rightarrow> real \<Rightarrow> gps_row" where
  "row_at vid t x y =
     \<lparr>row_vehicle_id = vid, row_latitude = y, row_longitude = x, row_speed = 60,
      row_direction = 0, row_timestamp = t * 1000000, row_accuracy = 5, row_geom = (x, y)\<rparr>"

definition new_processor :: batch_processor where
  "new_processor = \<lparr>batch_size = 500, batch_buffer = [], total_processed = 0, batch_count = 0\<rparr>"

text \<open>
  A point with the latitude 95 of the contract test
  \<^verbatim>\<open>test_post_gps_location_contract_invalid_coordinates\<close>, and a point off the globe in
  both coordinates with a negative speed.
\<close>

definition latitude_95 :: GPSBatchData where
  "latitude_95 =
     \<lparr>batch_vehicle_id = ''vehicle_123'', batch_latitude = 95, batch_longitude = 116.4074,
      batch_speed = 60, batch_direction = 0, batch_timestamp = 1000000, batch_accuracy = 5\<rparr>"

definition off_globe :: GPSBatchData where
  "off_globe =
     \<lparr>batch_vehicle_id = ''v1'', batch_latitude = 100, batch_longitude = 200,
      batch_speed = - 5, batch_direction = 0, batch_timestamp = 1000000, batch_accuracy = 5\<rparr>"

text \<open>A point of vehicle \<open>vid\<close> at second \<open>t\<close> of the first day.\<close>

definition batch_point :: "string \<Rightarrow> int \<Rightarrow> GPSBatchData" where
  "batch_point vid t =
     \<lparr>batch_vehicle_id = vid, batch_latitude = 39, batch_longitude = 116,
      batch_speed = 60, batch_direction = 0, batch_timestamp = t * 1000000, batch_accuracy = 5\<rparr>"

text \<open>A vehicle that drives from the origin to \<open>(3, 4)\<close> and back.\<close>

definition round_trip_table :: gps_table where
  "round_trip_table =
     \<lparr>partitions = [(0, 86400000000)],
      table_rows = [row_at ''v1'' 10 0 0, row_at ''v1'' 20 3 4, row_at ''v1'' 30 0 0]\<rparr>"

section \<open>Redis cache: point codec, write buffer and flush\<close>

subsection \<open>IEEE-754 conversions\<close>

text \<open>
  \<^verbatim>\<open>np.array(..., dtype=np.float32)\<close> converts each Python float to single precision and
  \<^verbatim>\<open>float(arr[i])\<close> converts back. Both are given as computations on the bit patterns:
  sign, biased exponent (11 or 8 bits) and fraction (52 or 23 bits). That the first rounds
  to nearest with ties to even and the second is exact is proved below, against the
  meaning of the patterns. A NaN keeps its sign and the upper fraction bits and comes out
  quiet.
\<close>

definition round_even :: "nat \<Rightarrow> nat \<Rightarrow> nat \<Rightarrow> nat" where
  "round_even q rem half = (if half < rem \<or> (rem = half \<and> odd q) then q + 1 else q)"

definition np_float32 :: "64 word \<Rightarrow> 32 word" where
  "np_float32 x =
     (let n = unat x;
          s = n div 2 ^ 63;
          e = (n div 2 ^ 52) mod 2 ^ 11;
          m = n mod 2 ^ 52;
          mag =
            (if e = 2047 then
               (if m = 0 then 255 * 2 ^ 23
                else let t = m div 2 ^ 29
                     in 255 * 2 ^ 23 + (if t div 2 ^ 22 = 1 then t else t + 2 ^ 22))
             else if 897 \<le> e then
               min (round_even ((e - 896) * 2 ^ 23 + m div 2 ^ 29) (m mod 2 ^ 29) (2 ^ 28))
                   (255 * 2 ^ 23)
             else
               (let sig = (if e = 0 then m else 2 ^ 52 + m);
                    sh = (if e = 0 then 925 else 926 - e)
                in round_even (sig div 2 ^ sh) (sig mod 2 ^ sh) (2 ^ (sh - 1))))
      in of_nat (s * 2 ^ 31 + mag))"

fun top_bit :: "nat \<Rightarrow> nat" where
  "top_bit m = (if m < 2 then 0 else Suc (top_bit (m div 2)))"

declare top_bit.simps [simp del]

definition py_float :: "32 word \<Rightarrow> 64 word" where
  "py_float w =
     (let n = unat w;
          s = n div 2 ^ 31;
          e = (n div 2 ^ 23) mod 2 ^ 8;
          m = n mod 2 ^ 23;
          mag =
            (if e = 255 then
               2047 * 2 ^ 52 + (if m = 0 then 0 else 2 ^ 51 + (m mod 2 ^ 22) * 2 ^ 29)
             else if e = 0 then
               (if m = 0 then 0
                else let k = top_bit m
                     in (k + 874) * 2 ^ 52 + (m - 2 ^ k) * 2 ^ (52 - k))
             else (e + 896) * 2 ^ 52 + m * 2 ^ 29)
      in of_nat (s * 2 ^ 63 + mag))"

subsection \<open>The IEEE-754 formats\<close>

text \<open>
  What the patterns stand for, stated apart from the two conversions. The fields of a
  pattern are its sign bit, its biased exponent and its fraction. A pattern of double
  precision whose exponent is not 2047 is a finite number: a multiple of \<^verbatim>\<open>2^-1074\<close>, the
  least positive double. The multiple is the fraction when the exponent is 0 (a subnormal
  number) and otherwise \<^verbatim>\<open>(2^52 + fraction) * 2^(exponent - 1)\<close>, which makes the number
  \<^verbatim>\<open>(1 + fraction / 2^52) * 2^(exponent - 1023)\<close>. Single precision is the same with 23
  fraction bits, the exponent 255 for the infinities and the NaNs, and the unit
  \<^verbatim>\<open>2^-149\<close>.
\<close>

definition sign64 :: "64 word \<Rightarrow> nat" where
  "sign64 x = unat x div 2 ^ 63"

definition exponent64 :: "64 word \<Rightarrow> nat" where
  "exponent64 x = (unat x div 2 ^ 52) mod 2 ^ 11"

definition fraction64 :: "64 word \<Rightarrow> nat" where
  "fraction64 x = unat x mod 2 ^ 52"

definition sign32 :: "32 word \<Rightarrow> nat" where
  "sign32 w = unat w div 2 ^ 31"

definition exponent32 :: "32 word \<Rightarrow> nat" where
  "exponent32 w = (unat w div 2 ^ 23) mod 2 ^ 8"

definition fraction32 :: "32 word \<Rightarrow> nat" where
  "fraction32 w = unat w mod 2 ^ 23"

definition magnitude :: "nat \<Rightarrow> nat \<Rightarrow> nat \<Rightarrow> nat" where
  "magnitude p e m = (if e = 0 then m else (2 ^ p + m) * 2 ^ (e - 1))"

definition value64 :: "64 word \<Rightarrow> real" where
  "value64 x =
     (if sign64 x = 0 then 1 else - 1) *
     real (magnitude 52 (exponent64 x) (fraction64 x)) / 2 ^ 1074"

definition value32 :: "32 word \<Rightarrow> real" where
  "value32 w =
     (if sign32 w = 0 then 1 else - 1) *
     real (magnitude 23 (exponent32 w) (fraction32 w)) / 2 ^ 149"

definition finite64 :: "64 word \<Rightarrow> bool" where
  "finite64 x = (exponent64 x \<noteq> 2047)"

definition infinite64 :: "64 word \<Rightarrow> bool" where
  "infinite64 x = (exponent64 x = 2047 \<and> fraction64 x = 0)"

definition nan64 :: "64 word \<Rightarrow> bool" where
  "nan64 x = (exponent64 x = 2047 \<and> fraction64 x \<noteq> 0)"

definition finite32 :: "32 word \<Rightarrow> bool" where
  "finite32 w = (exponent32 w \<noteq> 255)"

definition infinite32 :: "32 word \<Rightarrow> bool" where
  "infinite32 w = (exponent32 w = 255 \<and> fraction32 w = 0)"

definition nan32 :: "32 word \<Rightarrow> bool" where
  "nan32 w = (exponent32 w = 255 \<and> fraction32 w \<noteq> 0)"

text \<open>
  Rounding to nearest, ties to even, as IEEE 754 defines it. The single \<open>w\<close> is nearest
  to the real number \<open>r\<close> when it is finite, no finite single is nearer to \<open>r\<close>, and, if
  another finite single with another value is as near, the fraction of \<open>w\<close> is even.
\<close>

definition nearest_single :: "real \<Rightarrow> 32 word \<Rightarrow> bool" where
  "nearest_single r w \<longleftrightarrow>
     finite32 w \<and>
     (\<forall>v. finite32 v \<longrightarrow> \<bar>value32 w - r\<bar> \<le> \<bar>value32 v - r\<bar>) \<and>
     (\<forall>v. finite32 v \<and> value32 v \<noteq> value32 w \<and> \<bar>value32 v - r\<bar> = \<bar>value32 w - r\<bar>
        \<longrightarrow> even (fraction32 w))"

text \<open>
  The single \<open>w\<close> is the double \<open>x\<close> rounded to single precision: the sign is kept; a
  NaN gives a NaN; an infinity, and a number of magnitude at least
  \<^verbatim>\<open>2^128 - 2^103\<close> (the greatest finite single plus half a unit in its last place),
  gives an infinity; any other number gives the nearest single.
\<close>

definition single_rounding :: "64 word \<Rightarrow> 32 word \<Rightarrow> bool" where
  "single_rounding x w \<longleftrightarrow>
     sign32 w = sign64 x \<and>
     (if nan64 x then nan32 w
      else if infinite64 x \<or> 2 ^ 128 - 2 ^ 103 \<le> \<bar>value64 x\<bar> then infinite32 w
      else nearest_single (value64 x) w)"

text \<open>The double \<open>d\<close> is the single \<open>w\<close> as a double: the same sign and the same value.\<close>

definition widened :: "32 word \<Rightarrow> 64 word \<Rightarrow> bool" where
  "widened w d \<longleftrightarrow>
     sign64 d = sign32 w \<and>
     (if nan32 w then nan64 d
      else if infinite32 w then infinite64 d
      else finite64 d \<and> value64 d = value32 w)"

text \<open>
  The double \<open>d\<close> is the single-precision rounding of the double \<open>x\<close>; and \<open>x\<close> is
  exactly representable in single precision: an infinity, or the value of a finite single.
\<close>

definition rounded_to_single :: "64 word \<Rightarrow> 64 word \<Rightarrow> bool" where
  "rounded_to_single x d \<longleftrightarrow> (\<exists>w. single_rounding x w \<and> widened w d)"

definition single_exact :: "64 word \<Rightarrow> bool" where
  "single_exact x \<longleftrightarrow>
     \<not> nan64 x \<and> (infinite64 x \<or> (\<exists>w. finite32 w \<and> value32 w = value64 x))"

text \<open>
  The finite non-negative numbers of a format in ascending order: the \<open>k\<close>-th of them, in
  units of the least positive one, for a format with \<open>p\<close> fraction bits.
\<close>

definition unit_index :: "nat \<Rightarrow> nat \<Rightarrow> nat" where
  "unit_index p k = magnitude p (k div 2 ^ p) (k mod 2 ^ p)"

subsection \<open>The point codec\<close>

record GPSPoint =
  lat :: "64 word"
  lng :: "64 word"
  timestamp :: "64 word"
  point_speed :: "64 word"
  direction :: "64 word"

text \<open>
  \<^verbatim>\<open>ndarray.tobytes\<close> and \<^verbatim>\<open>np.frombuffer\<close> in the byte order of the host, taken to be
  little-endian. \<^verbatim>\<open>np.frombuffer\<close> raises \<^verbatim>\<open>ValueError\<close> unless the buffer is a whole
  number of 4-byte items; indexing past the end of the array raises \<^verbatim>\<open>IndexError\<close>.
\<close>

definition tobytes :: "32 word \<Rightarrow> 8 word list" where
  "tobytes w = [ucast w, ucast (drop_bit 8 w), ucast (drop_bit 16 w), ucast (drop_bit 24 w)]"

definition item :: "8 word \<Rightarrow> 8 word \<Rightarrow> 8 word \<Rightarrow> 8 word \<Rightarrow> 32 word" where
  "item b0 b1 b2 b3 =
     ucast b0 OR push_bit 8 (ucast b1) OR push_bit 16 (ucast b2) OR push_bit 24 (ucast b3)"

fun items :: "8 word list \<Rightarrow> 32 word list" where
  "items (b0 # b1 # b2 # b3 # rest) = item b0 b1 b2 b3 # items rest"
| "items rest = []"

definition frombuffer :: "8 word list \<Rightarrow> error + 32 word list" where
  "frombuffer data =
     (if length data mod 4 \<noteq> 0 then Inl ValueError else Inr (items data))"

definition getitem :: "'a list \<Rightarrow> nat \<Rightarrow> error + 'a" where
  "getitem arr i = (if i < length arr then Inr (arr ! i) else Inl IndexError)"

definition compress_gps_point :: "GPSPoint \<Rightarrow> 8 word list" where
  "compress_gps_point point =
     concat (map (\<lambda>x. tobytes (np_float32 x))
       [lat point, lng point, timestamp point, point_speed point, direction point])"

definition decompress_gps_point :: "8 word list \<Rightarrow> error + GPSPoint" where
  "decompress_gps_point data =
     (case frombuffer data of Inl e \<Rightarrow> Inl e | Inr arr \<Rightarrow>
      case getitem arr 0 of Inl e \<Rightarrow> Inl e | Inr a0 \<Rightarrow>
      case getitem arr 1 of Inl e \<Rightarrow> Inl e | Inr a1 \<Rightarrow>
      case getitem arr 2 of Inl e \<Rightarrow> Inl e | Inr a2 \<Rightarrow>
      case getitem arr 3 of Inl e \<Rightarrow> Inl e | Inr a3 \<Rightarrow>
      case getitem arr 4 of Inl e \<Rightarrow> Inl e | Inr a4 \<Rightarrow>
        Inr \<lparr>lat = py_float a0, lng = py_float a1, timestamp = py_float a2,
             point_speed = py_float a3, direction = py_float a4\<rparr>)"

text \<open>The result of decoding an encoded point: every field rounded to single precision.\<close>

definition single_rounded :: "GPSPoint \<Rightarrow> GPSPoint" where
  "single_rounded point =
     \<lparr>lat = py_float (np_float32 (lat point)),
      lng = py_float (np_float32 (lng point)),
      timestamp = py_float (np_float32 (timestamp point)),
      point_speed = py_float (np_float32 (point_speed point)),
      direction = py_float (np_float32 (direction point))\<rparr>"

text \<open>
  A point in Beijing: latitude 39.5, longitude 116.5, time 1700000000, 60.5 km/h, heading
  270, all exact in single precision; and the same point at latitude 39.9042, which is not.
\<close>

definition beijing_point :: GPSPoint where
  "beijing_point =
     \<lparr>lat = 0x4043C00000000000, lng = 0x405D200000000000, timestamp = 0x41D954FC40000000,
      point_speed = 0x404E400000000000, direction = 0x4070E00000000000\<rparr>"

definition tiananmen_point :: GPSPoint where
  "tiananmen_point = beijing_point\<lparr>lat := 0x4043F3BCD35A8588\<rparr>"

subsection \<open>The Redis client\<close>

text \<open>
  The arguments that \<^verbatim>\<open>_flush_write_buffer\<close> hands to the client are floats and strings.
  A float is false when it is a zero of either sign, a string when it is empty; \<^verbatim>\<open>len\<close>
  of a float raises \<^verbatim>\<open>TypeError\<close>.
\<close>

datatype py_value = Float "64 word" | Str string

definition truthy :: "py_value \<Rightarrow> bool" where
  "truthy v =
     (case v of
        Float x \<Rightarrow> x \<noteq> 0 \<and> x \<noteq> 0x8000000000000000
      | Str str \<Rightarrow> str \<noteq> [])"

definition py_len :: "py_value \<Rightarrow> error + nat" where
  "py_len v = (case v of Float x \<Rightarrow> Inl TypeError | Str str \<Rightarrow> Inr (length str))"

text \<open>
  The commands that the flush queues. The mapping of \<^verbatim>\<open>HSET\<close> is the latest position.
\<close>

record location_data =
  data_lat :: "64 word"
  data_lng :: "64 word"
  data_speed :: "64 word"
  data_dir :: "64 word"
  data_ts :: "64 word"

datatype command =
    HSET string location_data
  | EXPIRE string nat
  | GEOADD string py_value
  | LPUSH string "8 word list"
  | LTRIM string nat nat

text \<open>
  The client is that of \<^verbatim>\<open>redis.asyncio\<close>, whose method is
  \<^verbatim>\<open>geoadd(name, values, nx=False, xx=False, ch=False)\<close>: it raises \<^verbatim>\<open>DataError\<close> when
  \<^verbatim>\<open>nx\<close> and \<^verbatim>\<open>xx\<close> are both true and when \<^verbatim>\<open>len(values)\<close> is not a multiple of 3, and
  otherwise builds the command from the items of \<^verbatim>\<open>values\<close>. On a pipeline the checks are
  made when the method is called, before anything is queued.
\<close>

definition geoadd :: "string \<Rightarrow> py_value \<Rightarrow> py_value \<Rightarrow> py_value \<Rightarrow> error + command" where
  "geoadd name values nx xx =
     (if truthy nx \<and> truthy xx then Inl DataError
      else case py_len values of
             Inl e \<Rightarrow> Inl e
           | Inr n \<Rightarrow> if n mod 3 \<noteq> 0 then Inl DataError else Inr (GEOADD name values))"

subsection \<open>The Redis store\<close>

text \<open>
  What the cache keeps in Redis, by key: the hashes \<^verbatim>\<open>v:<id>\<close> with the latest position,
  the lifetimes set on keys, the arguments given to the geo set, and the lists \<^verbatim>\<open>t:<id>\<close>
  of encoded points. A missing list is the empty list, as in Redis. Time does not pass, so
  no key expires.
\<close>

record redis =
  hashes :: "string \<rightharpoonup> location_data"
  expires :: "string \<rightharpoonup> nat"
  geo_values :: "string \<rightharpoonup> py_value"
  lists :: "string \<Rightarrow> 8 word list list"

text \<open>
  The effect of a command. \<^verbatim>\<open>LPUSH\<close> puts the value at the front of the list;
  \<^verbatim>\<open>LTRIM key start stop\<close> keeps the elements at the indices \<open>start..stop\<close>.
\<close>

fun apply_command :: "command \<Rightarrow> redis \<Rightarrow> redis" where
  "apply_command (HSET key mapping) r = r\<lparr>hashes := (hashes r)(key \<mapsto> mapping)\<rparr>"
| "apply_command (EXPIRE key ttl) r = r\<lparr>expires := (expires r)(key \<mapsto> ttl)\<rparr>"
| "apply_command (GEOADD key values) r = r\<lparr>geo_values := (geo_values r)(key \<mapsto> values)\<rparr>"
| "apply_command (LPUSH key v) r = r\<lparr>lists := (lists r)(key := v # lists r key)\<rparr>"
| "apply_command (LTRIM key start stop) r =
     r\<lparr>lists := (lists r)(key := take (Suc stop - start) (drop start (lists r key)))\<rparr>"

text \<open>\<^verbatim>\<open>pipe.execute()\<close> runs the queued commands in order, as one transaction.\<close>

definition pipe_execute :: "command list \<Rightarrow> redis \<Rightarrow> redis" where
  "pipe_execute pipe r = fold apply_command pipe r"

subsection \<open>The write buffer\<close>

text \<open>
  \<^verbatim>\<open>OptimizedGPSCache\<close>: the attributes set in \<^verbatim>\<open>__init__\<close> that the write path uses.
  \<^verbatim>\<open>write_buffer\<close> is a Python dict, kept as an association list in insertion order.
\<close>

definition vehicle_ttl :: nat where "vehicle_ttl = 3600"
definition track_ttl :: nat where "track_ttl = 7200"
definition cache_batch_size :: nat where "cache_batch_size = 50"

record gps_cache =
  write_buffer :: "(string \<times> GPSPoint list) list"
  write_count :: nat

definition dict_get :: "('k \<times> 'v list) list \<Rightarrow> 'k \<Rightarrow> 'v list" where
  "dict_get d k = (case map_of d k of None \<Rightarrow> [] | Some v \<Rightarrow> v)"

fun dict_append :: "('k \<times> 'v list) list \<Rightarrow> 'k \<Rightarrow> 'v \<Rightarrow> ('k \<times> 'v list) list" where
  "dict_append [] k v = [(k, [v])]"
| "dict_append ((k', vs) # d) k v =
     (if k' = k then (k', vs @ [v]) # d else (k', vs) # dict_append d k v)"

text \<open>
  The body of the loop of \<^verbatim>\<open>_flush_write_buffer\<close> for one entry of the buffer, on the
  commands queued so far: the latest position and its lifetime, the geo index, then a push
  of every point to the front of the track list, which is trimmed to its first 200
  elements. The call for the geo index is \<^verbatim>\<open>pipe.geoadd(geo_key, lng, lat, vehicle_id)\<close>:
  it binds the longitude to \<^verbatim>\<open>values\<close>, the latitude to \<^verbatim>\<open>nx\<close> and the vehicle to
  \<^verbatim>\<open>xx\<close>. (The variable \<^verbatim>\<open>client\<close> of the loop is not used.)
\<close>

definition queue_vehicle :: "command list \<Rightarrow> string \<times> GPSPoint list \<Rightarrow> error + command list" where
  "queue_vehicle pipe entry =
     (let vid = fst entry; gps_points = snd entry
      in if gps_points = [] then Inr pipe
         else
           let latest_point = last gps_points;
               vehicle_key = ''v:'' @ vid;
               location = \<lparr>data_lat = lat latest_point, data_lng = lng latest_point,
                           data_speed = point_speed latest_point,
                           data_dir = direction latest_point,
                           data_ts = timestamp latest_point\<rparr>;
               pipe1 = pipe @ [HSET vehicle_key location, EXPIRE vehicle_key vehicle_ttl];
               geo_key = ''geo:vehicles''
           in case geoadd geo_key (Float (lng latest_point)) (Float (lat latest_point)) (Str vid) of
                Inl e \<Rightarrow> Inl e
              | Inr geo_command \<Rightarrow>
                  let track_key = ''t:'' @ vid;
                      pipe2 = pipe1 @ [geo_command] @
                              map (\<lambda>point. LPUSH track_key (compress_gps_point point)) gps_points
                  in Inr (pipe2 @ [LTRIM track_key 0 199, EXPIRE track_key track_ttl]))"

fun queue_buffer ::
  "command list \<Rightarrow> (string \<times> GPSPoint list) list \<Rightarrow> error + command list" where
  "queue_buffer pipe [] = Inr pipe"
| "queue_buffer pipe (entry # rest) =
     (case queue_vehicle pipe entry of
        Inl e \<Rightarrow> Inl e
      | Inr pipe' \<Rightarrow> queue_buffer pipe' rest)"

text \<open>
  \<^verbatim>\<open>_flush_write_buffer\<close>: the exception it raises, if any, and the state it leaves. An
  exception of the loop leaves the function before \<^verbatim>\<open>pipe.execute()\<close>: nothing is sent
  and the buffer is not cleared.
\<close>

definition flush_write_buffer :: "gps_cache \<times> redis \<Rightarrow> error option \<times> gps_cache \<times> redis" where
  "flush_write_buffer s =
     (let c = fst s; r = snd s
      in if write_buffer c = [] then (None, s)
         else case queue_buffer [] (write_buffer c) of
                Inl e \<Rightarrow> (Some e, s)
              | Inr pipe \<Rightarrow>
                  (None,
                   c\<lparr>write_buffer := [],
                     write_count := write_count c +
                       sum_list (map (\<lambda>e. length (snd e)) (write_buffer c))\<rparr>,
                   pipe_execute pipe r))"

definition cache_gps_point ::
  "string \<Rightarrow> GPSPoint \<Rightarrow> gps_cache \<times> redis \<Rightarrow> error option \<times> gps_cache \<times> redis" where
  "cache_gps_point vid gps_point s =
     (let c = (fst s)\<lparr>write_buffer := dict_append (write_buffer (fst s)) vid gps_point\<rparr>
      in if cache_batch_size \<le> length (dict_get (write_buffer c) vid)
         then flush_write_buffer (c, snd s)
         else (None, c, snd s))"

text \<open>
  The life of a cache: from the empty buffer and an empty store, a sequence of accepted
  points and of flushes by the background task. An exception goes to the caller or to the
  log; the state stays as the operation left it.
\<close>

datatype cache_op = CachePoint string GPSPoint | BackgroundFlush

fun cache_step :: "gps_cache \<times> redis \<Rightarrow> cache_op \<Rightarrow> gps_cache \<times> redis" where
  "cache_step s (CachePoint vid gps_point) = snd (cache_gps_point vid gps_point s)"
| "cache_step s BackgroundFlush = snd (flush_write_buffer s)"

definition empty_redis :: redis where
  "empty_redis =
     \<lparr>hashes = Map.empty, expires = Map.empty, geo_values = Map.empty, lists = (\<lambda>key. [])\<rparr>"

definition cache_init :: "gps_cache \<times> redis" where
  "cache_init = (\<lparr>write_buffer = [], write_count = 0\<rparr>, empty_redis)"

definition cache_run :: "cache_op list \<Rightarrow> gps_cache \<times> redis" where
  "cache_run ops = foldl cache_step cache_init ops"
section \<open>Properties of the GPS service\<close>

lemma set_tenant_context_raises: "set_tenant_context tenant_id = Some DatabaseError"
  by (simp add: set_tenant_context_def session_execute_def)

text \<open>
  Since the tenant context cannot be set, \<^verbatim>\<open>get_tracking_history\<close> raises for every
  session, tenant, filter and limit, and \<^verbatim>\<open>analyze_route\<close> with it.
\<close>

lemma get_tracking_history_raises:
  "get_tracking_history UUID session tenant_id filters limit = Inl GPSServiceError"
  by (simp add: get_tracking_history_def set_tenant_context_raises)

lemma analyze_route_raises:
  "analyze_route UUID session tenant_id sid tfrom tto = Inl GPSServiceError"
  by (simp add: analyze_route_def get_tracking_history_raises)

lemma calculate_distance_same_place [simp]: "calculate_distance a b a b = Inr 0"
  by (simp add: calculate_distance_def)

text \<open>Evaluation of the analysis on the example routes.\<close>

lemmas route_eval =
  route_metrics_def route_step_def route_point_def
  time_diff_minutes_def total_seconds_def py_int_def py_round2_def Let_def

text \<open>
  With a crawl of 3 km/h in place of the standstill the loop sees one stop of 10 minutes;
  two slow gaps in a row count as two stops.
\<close>

lemma route_metrics_crawl_route:
  "route_metrics crawl_route =
     Inr \<lparr>total_distance = 0, total_duration = 11, average_speed = 63 / 2, max_speed = 60,
          stop_count = 1, stop_duration = 10\<rparr>"
  by (simp add: crawl_route_def route_eval)

lemma route_metrics_two_gap_route:
  "route_metrics two_gap_route =
     Inr \<lparr>total_distance = 0, total_duration = 20, average_speed = 3, max_speed = 3,
          stop_count = 2, stop_duration = 20\<rparr>"
  by (simp add: two_gap_route_def route_eval)

text \<open>
  C1, at the specification's own example: three points of one shipment, the second 10
  minutes after the first with speed 0, the third a minute later with speed 60. The call
  of \<^verbatim>\<open>analyze_route\<close> raises \<^verbatim>\<open>GPSServiceError\<close>, because the tenant context cannot be
  set. The analysis of the three points, which the call does not reach, reports no stop
  and no stop time: \<^verbatim>\<open>if curr_point.speed:\<close> skips a speed of 0 like a missing one, so
  the test for a stop, a speed below 5 km/h for more than 2 minutes, is never made for a
  vehicle that stands still.
\<close>

theorem analyze_route_stop_example:
  "analyze_route Some zero_speed_route tenant_1 shipment_1 None None = Inl GPSServiceError \<and>
   route_metrics zero_speed_route =
     Inr \<lparr>total_distance = 0, total_duration = 11, average_speed = 60, max_speed = 60,
          stop_count = 0, stop_duration = 0\<rparr>"
proof -
  have "route_metrics zero_speed_route =
     Inr \<lparr>total_distance = 0, total_duration = 11, average_speed = 60, max_speed = 60,
          stop_count = 0, stop_duration = 0\<rparr>"
    by (simp add: zero_speed_route_def route_eval)
  then show ?thesis by (simp add: analyze_route_raises)
qed

text \<open>
  C2, at a shipment parked for an hour that reports 60 km/h at both points. The call of
  \<^verbatim>\<open>analyze_route\<close> raises \<^verbatim>\<open>GPSServiceError\<close>, because the tenant context cannot be
  set. The analysis of the two points, which the call does not reach, has distance 0 and
  duration 60 minutes and takes as average speed the mean of the reported speeds, 60,
  where the distance over the duration is 0.
\<close>

theorem analyze_route_average_speed_example:
  "analyze_route Some parked_route tenant_1 shipment_1 None None = Inl GPSServiceError \<and>
   route_metrics parked_route =
     Inr \<lparr>total_distance = 0, total_duration = 60, average_speed = 60, max_speed = 60,
          stop_count = 0, stop_duration = 0\<rparr> \<and>
   spec_average_speed
     \<lparr>total_distance = 0, total_duration = 60, average_speed = 60, max_speed = 60,
      stop_count = 0, stop_duration = 0\<rparr> = 0"
proof -
  have "route_metrics parked_route =
     Inr \<lparr>total_distance = 0, total_duration = 60, average_speed = 60, max_speed = 60,
          stop_count = 0, stop_duration = 0\<rparr>"
    by (simp add: parked_route_def route_eval)
  then show ?thesis by (simp add: analyze_route_raises spec_average_speed_def)
qed

text \<open>With both points at the same instant the duration is 0 and the average still 60.\<close>

lemma route_metrics_instant_route:
  "route_metrics instant_route =
     Inr \<lparr>total_distance = 0, total_duration = 0, average_speed = 60, max_speed = 60,
          stop_count = 0, stop_duration = 0\<rparr>"
  by (simp add: instant_route_def route_eval)

section \<open>Properties of the database optimizer\<close>

lemma upsert_same_key:
  "row_key r = row_key e \<Longrightarrow>
   r\<lparr>row_latitude := row_latitude e, row_longitude := row_longitude e,
     row_speed := row_speed e, row_direction := row_direction e,
     row_accuracy := row_accuracy e, row_geom := row_geom e\<rparr> = e"
  by (simp add: row_key_def)

lemma upsert_keys:
  "map row_key (upsert rows e) =
     (if row_key e \<in> set (map row_key rows) then map row_key rows
      else map row_key rows @ [row_key e])"
  by (induction rows) (auto simp: upsert_same_key)

lemma upsert_distinct:
  "distinct (map row_key rows) \<Longrightarrow> distinct (map row_key (upsert rows e))"
  by (simp add: upsert_keys)

lemma filter_key_absent:
  "k \<notin> set (map row_key rows) \<Longrightarrow> filter (\<lambda>r. row_key r = k) rows = []"
  by (induction rows) auto

lemma upsert_filter_same:
  "distinct (map row_key rows) \<Longrightarrow>
   filter (\<lambda>r. row_key r = row_key e) (upsert rows e) = [e]"
proof (induction rows)
  case Nil
  show ?case by simp
next
  case (Cons r rows)
  show ?case
  proof (cases "row_key r = row_key e")
    case True
    with Cons.prems have "row_key e \<notin> set (map row_key rows)" by auto
    then have "filter (\<lambda>r. row_key r = row_key e) rows = []" by (rule filter_key_absent)
    with True show ?thesis by (simp add: upsert_same_key)
  next
    case False
    with Cons show ?thesis by simp
  qed
qed

lemma upsert_filter_other:
  "k \<noteq> row_key e \<Longrightarrow>
   filter (\<lambda>r. row_key r = k) (upsert rows e) = filter (\<lambda>r. row_key r = k) rows"
  by (induction rows) (auto simp: upsert_same_key)

lemma find_append:
  "find P (xs @ ys) = (case find P xs of None \<Rightarrow> find P ys | Some x \<Rightarrow> Some x)"
  by (induction xs) simp_all

lemma execute_many_last_wins:
  assumes "distinct (map row_key (table_rows db))" and "execute_many db batch = Inr db'"
  shows "distinct (map row_key (table_rows db')) \<and>
         filter (\<lambda>r. row_key r = k) (table_rows db') =
           (case find (\<lambda>r. row_key r = k) (rev batch) of
              None \<Rightarrow> filter (\<lambda>r. row_key r = k) (table_rows db)
            | Some r \<Rightarrow> [r])"
  using assms
proof (induction batch arbitrary: db)
  case Nil
  then show ?case by simp
next
  case (Cons e batch)
  from Cons.prems(2) obtain db1 where
    ins: "insert_on_conflict db e = Inr db1" and rest: "execute_many db1 batch = Inr db'"
    by (auto split: sum.splits)
  from ins have rows1: "table_rows db1 = upsert (table_rows db) e"
    by (auto simp: insert_on_conflict_def split: if_splits)
  with Cons.prems(1) have d1: "distinct (map row_key (table_rows db1))"
    by (simp add: upsert_distinct)
  note ih = Cons.IH [OF d1 rest]
  show ?case
  proof (cases "find (\<lambda>r. row_key r = k) (rev batch)")
    case (Some r)
    with ih show ?thesis by (simp add: find_append)
  next
    case None
    show ?thesis
    proof (cases "row_key e = k")
      case True
      with ih None rows1 Cons.prems(1) show ?thesis
        using upsert_filter_same [of "table_rows db" e] by (simp add: find_append)
    next
      case False
      with ih None rows1 show ?thesis
        using upsert_filter_other [of k e "table_rows db"] by (auto simp: find_append)
    qed
  qed
qed

lemma execute_batch_insert_ok:
  "execute_batch_insert db batch = (None, db') \<Longrightarrow> execute_many db batch = Inr db'"
  by (auto simp: execute_batch_insert_def split: if_splits sum.splits)

text \<open>
  C3. On a table that satisfies its primary key, take two bulk upserts that both succeed,
  the first carrying a row \<open>r1\<close> and the second carrying rows with the key of \<open>r1\<close>, the
  last of them \<open>r2\<close>. Afterwards the table still satisfies its primary key and holds
  exactly one row with that key, and that row is \<open>r2\<close>: every column has the value of the
  later write.
\<close>

theorem bulk_upsert_last_write_wins:
  assumes "primary_key db"
    and "execute_batch_insert db batch1 = (None, db1)"
    and "execute_batch_insert db1 batch2 = (None, db2)"
    and "r1 \<in> set batch1"
    and "find (\<lambda>r. row_key r = row_key r1) (rev batch2) = Some r2"
  shows "primary_key db2 \<and> filter (\<lambda>r. row_key r = row_key r1) (table_rows db2) = [r2]"
proof -
  from assms(1) have d: "distinct (map row_key (table_rows db))"
    by (simp add: primary_key_def)
  from execute_many_last_wins [OF d execute_batch_insert_ok [OF assms(2)]]
  have d1: "distinct (map row_key (table_rows db1))" by simp
  from execute_many_last_wins [OF d1 execute_batch_insert_ok [OF assms(3)], of "row_key r1"]
    assms(5)
  show ?thesis by (simp add: primary_key_def)
qed


lemma first_day_rows:
  "execute_batch_insert first_day_table [row_at ''v1'' 1 116 39] =
     (None, first_day_table\<lparr>table_rows := [row_at ''v1'' 1 116 39]\<rparr>)"
  "execute_batch_insert (first_day_table\<lparr>table_rows := [row_at ''v1'' 1 116 39]\<rparr>)
       [row_at ''v1'' 1 117 40] =
     (None, first_day_table\<lparr>table_rows := [row_at ''v1'' 1 117 40]\<rparr>)"
  by (simp_all add: execute_batch_insert_def insert_on_conflict_def in_partition_def
      first_day_table_def row_at_def row_key_def)

text \<open>
  C3 at two writes for vehicle \<open>v1\<close> at the same second with different coordinates.
\<close>

theorem bulk_upsert_last_write_wins_witness:
  "primary_key first_day_table \<and>
   execute_batch_insert first_day_table [row_at ''v1'' 1 116 39] =
     (None, first_day_table\<lparr>table_rows := [row_at ''v1'' 1 116 39]\<rparr>) \<and>
   execute_batch_insert (first_day_table\<lparr>table_rows := [row_at ''v1'' 1 116 39]\<rparr>)
       [row_at ''v1'' 1 117 40] =
     (None, first_day_table\<lparr>table_rows := [row_at ''v1'' 1 117 40]\<rparr>) \<and>
   row_at ''v1'' 1 116 39 \<noteq> row_at ''v1'' 1 117 40 \<and>
   filter (\<lambda>r. row_key r = row_key (row_at ''v1'' 1 116 39))
     (table_rows (first_day_table\<lparr>table_rows := [row_at ''v1'' 1 117 40]\<rparr>))
     = [row_at ''v1'' 1 117 40]"
proof -
  have pk: "primary_key first_day_table"
    by (simp add: primary_key_def first_day_table_def)
  have mem: "row_at ''v1'' 1 116 39 \<in> set [row_at ''v1'' 1 116 39]" by simp
  have later: "find (\<lambda>r. row_key r = row_key (row_at ''v1'' 1 116 39))
                 (rev [row_at ''v1'' 1 117 40]) = Some (row_at ''v1'' 1 117 40)"
    by (simp add: row_key_def row_at_def)
  have ne: "row_at ''v1'' 1 116 39 \<noteq> row_at ''v1'' 1 117 40"
    by (simp add: row_at_def)
  from bulk_upsert_last_write_wins [OF pk first_day_rows(1) first_day_rows(2) mem later]
  show ?thesis using pk first_day_rows ne by simp
qed

lemma add_gps_data_below_batch_size:
  "length (batch_buffer p) + 1 < batch_size p \<Longrightarrow>
   add_gps_data gps_data (p, db) =
     (None, p\<lparr>batch_buffer := batch_buffer p @ [buffer_row gps_data]\<rparr>, db)"
  by (simp add: add_gps_data_def Let_def)

lemma add_gps_data_at_batch_size:
  "batch_size p \<le> length (batch_buffer p) + 1 \<Longrightarrow>
   add_gps_data gps_data (p, db) =
     flush_batch (p\<lparr>batch_buffer := batch_buffer p @ [buffer_row gps_data]\<rparr>, db)"
  by (simp add: add_gps_data_def Let_def)

text \<open>
  C4, at the point with latitude 95 on a fresh processor: \<^verbatim>\<open>add_gps_data\<close> raises
  nothing and the point sits in the buffer. The function checks nothing: the same holds
  of the point with latitude 100, longitude 200 and speed -5.
\<close>

theorem add_gps_data_accepts_latitude_95:
  "90 < batch_latitude latitude_95 \<and>
   add_gps_data latitude_95 (new_processor, first_day_table) =
     (None, new_processor\<lparr>batch_buffer := [buffer_row latitude_95]\<rparr>, first_day_table) \<and>
   row_latitude (buffer_row latitude_95) = 95 \<and>
   90 < batch_latitude off_globe \<and> 180 < batch_longitude off_globe \<and>
   batch_speed off_globe < 0 \<and>
   add_gps_data off_globe (new_processor, first_day_table) =
     (None, new_processor\<lparr>batch_buffer := [buffer_row off_globe]\<rparr>, first_day_table)"
  by (simp add: add_gps_data_def new_processor_def latitude_95_def off_globe_def
      buffer_row_def Let_def)

text \<open>
  With a batch size of 1 the point with latitude 95 is flushed at once and becomes a row of
  the table.
\<close>

lemma add_gps_data_stores_latitude_95:
  "add_gps_data latitude_95 (new_processor\<lparr>batch_size := 1\<rparr>, first_day_table) =
     (None,
      \<lparr>batch_size = 1, batch_buffer = [], total_processed = 1, batch_count = 1\<rparr>,
      first_day_table\<lparr>table_rows := [buffer_row latitude_95]\<rparr>)"
  by (simp add: add_gps_data_def flush_batch_def execute_batch_insert_def
      insert_on_conflict_def in_partition_def new_processor_def first_day_table_def
      latitude_95_def buffer_row_def Let_def)

section \<open>Properties of the track query\<close>

lemma sorted_track:
  "sorted (rev (map row_timestamp (get_vehicle_track db now vid st en limit)))"
proof -
  have "sorted (rev (take limit (rev (map row_timestamp (sort_key row_timestamp xs)))))" for xs
    by (simp add: rev_take sorted_wrt_drop)
  then show ?thesis
    by (simp add: get_vehicle_track_def Let_def rev_map take_map)
qed

lemma newest_first_prefix:
  assumes "sorted (rev (map f xs))" and "x \<in> set xs" and "x \<notin> set (take n xs)"
    and "y \<in> set (take n xs)"
  shows "f x \<le> f y"
proof -
  from assms(2,3) have x: "x \<in> set (drop n xs)"
    by (metis Un_iff append_take_drop_id set_append)
  have "sorted (rev (map f (take n xs @ drop n xs)))"
    using assms(1) by simp
  then have "\<forall>a\<in>set (drop n xs). \<forall>b\<in>set (take n xs). f a \<le> f b"
    by (simp only: map_append rev_append sorted_append set_rev set_map) blast
  with x assms(4) show ?thesis by blast
qed

text \<open>
  C6 (as the code has it). \<^verbatim>\<open>GPSQueryOptimizer.get_vehicle_track\<close> returns rows of the
  vehicle with a timestamp in the range, in descending order of timestamp, newest first;
  it returns all of them, or \<open>limit\<close> of them when there are more, and then a row of the
  range that it leaves out is not newer than any row it returns.
\<close>

theorem get_vehicle_track_newest_first:
  fixes db now vid start_time' end_time' limit
  defines "start_time \<equiv> (case start_time' of None \<Rightarrow> now - hours 24 | Some t \<Rightarrow> t)"
    and "end_time \<equiv> (case end_time' of None \<Rightarrow> now | Some t \<Rightarrow> t)"
  defines "in_range \<equiv> filter (\<lambda>r. row_vehicle_id r = vid \<and>
                          start_time \<le> row_timestamp r \<and> row_timestamp r \<le> end_time)
                        (table_rows db)"
    and "track \<equiv> get_vehicle_track db now vid start_time' end_time' limit"
  shows "sorted (rev (map row_timestamp track)) \<and>
         set track \<subseteq> set in_range \<and>
         length track = min limit (length in_range) \<and>
         (\<forall>r\<in>set in_range. r \<notin> set track \<longrightarrow>
            (\<forall>r'\<in>set track. row_timestamp r \<le> row_timestamp r'))"
proof -
  let ?newest = "rev (sort_key row_timestamp in_range)"
  have track: "track = take limit ?newest"
    by (simp add: track_def in_range_def start_time_def end_time_def get_vehicle_track_def
        Let_def)
  have s: "sorted (rev (map row_timestamp track))"
    unfolding track_def by (rule sorted_track)
  have sub: "set track \<subseteq> set in_range"
    unfolding track using set_take_subset [of limit ?newest] by simp
  have len: "length track = min limit (length in_range)"
    unfolding track by simp
  have srt: "sorted (rev (map row_timestamp ?newest))"
    by (simp add: rev_map)
  have "row_timestamp r \<le> row_timestamp r'"
    if "r \<in> set in_range" "r \<notin> set track" "r' \<in> set track" for r r'
  proof -
    from that(1) have "r \<in> set ?newest" by simp
    from newest_first_prefix [OF srt this] that(2,3) show ?thesis
      unfolding track by blast
  qed
  with s sub len show ?thesis by blast
qed

lemma track_round_trip:
  "map row_timestamp (get_vehicle_track round_trip_table 60000000 ''v1'' None None 1000)
     = [30000000, 20000000, 10000000]"
  by (simp add: get_vehicle_track_def round_trip_table_def row_at_def hours_def Let_def)

lemma track_round_trip_2:
  "get_vehicle_track round_trip_table 60000000 ''v1'' None None 2
     = [row_at ''v1'' 30 0 0, row_at ''v1'' 20 3 4]"
  by (simp add: get_vehicle_track_def round_trip_table_def row_at_def hours_def Let_def
      numeral_2_eq_2)

text \<open>
  C6 at the round trip of vehicle \<open>v1\<close> with a limit of 2: of the rows of seconds 10, 20
  and 30 the query returns those of 30 and 20, in this order, and leaves out the oldest.
\<close>

theorem get_vehicle_track_newest_first_witness:
  "get_vehicle_track round_trip_table 60000000 ''v1'' None None 2
     = [row_at ''v1'' 30 0 0, row_at ''v1'' 20 3 4] \<and>
   row_at ''v1'' 10 0 0 \<in> set (filter (\<lambda>r. row_vehicle_id r = ''v1'' \<and>
        60000000 - hours 24 \<le> row_timestamp r \<and> row_timestamp r \<le> 60000000)
      (table_rows round_trip_table)) \<and>
   row_at ''v1'' 10 0 0 \<notin> set (get_vehicle_track round_trip_table 60000000 ''v1'' None None 2) \<and>
   row_timestamp (row_at ''v1'' 10 0 0) \<le> row_timestamp (row_at ''v1'' 20 3 4) \<and>
   length (get_vehicle_track round_trip_table 60000000 ''v1'' None None 2) = 2 \<and>
   sorted (rev (map row_timestamp
     (get_vehicle_track round_trip_table 60000000 ''v1'' None None 2)))"
proof -
  have m: "row_at ''v1'' 10 0 0 \<in> set (filter (\<lambda>r. row_vehicle_id r = ''v1'' \<and>
        60000000 - hours 24 \<le> row_timestamp r \<and> row_timestamp r \<le> 60000000)
      (table_rows round_trip_table))"
    by (simp add: round_trip_table_def row_at_def hours_def)
  have n: "row_at ''v1'' 10 0 0 \<notin> set (get_vehicle_track round_trip_table 60000000 ''v1'' None None 2)"
    by (simp add: track_round_trip_2 row_at_def)
  have y: "row_at ''v1'' 20 3 4 \<in> set (get_vehicle_track round_trip_table 60000000 ''v1'' None None 2)"
    by (simp add: track_round_trip_2)
  from get_vehicle_track_newest_first
    [of round_trip_table 60000000 "''v1''" None None 2] m n y
  show ?thesis by (auto simp: track_round_trip_2)
qed

text \<open>
  C6 as stated fails for \<^verbatim>\<open>get_vehicle_track\<close>: the rows of seconds 10, 20 and 30 come
  back as 30, 20, 10, which is not ascending.
\<close>

theorem get_vehicle_track_descending_counterexample:
  "map row_timestamp (get_vehicle_track round_trip_table 60000000 ''v1'' None None 1000)
     = [30000000, 20000000, 10000000] \<and>
   \<not> sorted (map row_timestamp
        (get_vehicle_track round_trip_table 60000000 ''v1'' None None 1000))"
  by (simp add: track_round_trip)

section \<open>Properties of the statistics query\<close>

lemma distance_km_type_undefined: "distance_km_type = None"
  by (simp add: distance_km_type_def ST_MakePoint_type_def ST_Distance_type_def
      cast_geography_type_def numeric_type_def)

text \<open>
  The statement of \<^verbatim>\<open>get_vehicle_statistics\<close> casts a number to \<^verbatim>\<open>geography\<close>; the
  database refuses it, whatever the table, the vehicles and the window.
\<close>

lemma get_vehicle_statistics_raises:
  "get_vehicle_statistics db now vehicle_ids time_window_hours = Inl DatabaseError"
  by (simp add: get_vehicle_statistics_def distance_km_type_undefined Let_def)

text \<open>
  C7, at the round trip of vehicle \<open>v1\<close>, which drives from the origin to \<open>(3, 4)\<close> and
  back within the window. The call raises, and no distance is reported. The two points
  that the query builds for the distance are \<open>(0, 0)\<close> and \<open>(3, 4)\<close>, two corners of the
  bounding box of the rows, where the first and the last point of the window are both
  \<open>(0, 0)\<close>.
\<close>

theorem get_vehicle_statistics_round_trip:
  "get_vehicle_statistics round_trip_table 60000000 [''v1''] 24 = Inl DatabaseError \<and>
   statistics_window round_trip_table (60000000 - hours 24) ''v1'' =
     [row_at ''v1'' 10 0 0, row_at ''v1'' 20 3 4, row_at ''v1'' 30 0 0] \<and>
   distance_points (statistics_window round_trip_table (60000000 - hours 24) ''v1'') =
     ((0, 0), (3, 4)) \<and>
   spec_displacement_points (statistics_window round_trip_table (60000000 - hours 24) ''v1'') =
     ((0, 0), (0, 0))"
proof -
  have w: "statistics_window round_trip_table (60000000 - hours 24) ''v1'' =
      [row_at ''v1'' 10 0 0, row_at ''v1'' 20 3 4, row_at ''v1'' 30 0 0]"
    by (simp add: statistics_window_def round_trip_table_def row_at_def hours_def)
  have d: "distance_points [row_at ''v1'' 10 0 0, row_at ''v1'' 20 3 4, row_at ''v1'' 30 0 0] =
      ((0, 0), (3, 4))"
    by (simp add: distance_points_def row_at_def)
  have f: "spec_displacement_points
      [row_at ''v1'' 10 0 0, row_at ''v1'' 20 3 4, row_at ''v1'' 30 0 0] = ((0, 0), (0, 0))"
    by (simp add: spec_displacement_points_def row_coordinates_def row_at_def)
  from w d f show ?thesis
    by (simp add: get_vehicle_statistics_raises)
qed

section \<open>Properties of the batch processor\<close>

lemma flush_batch_nonempty:
  "batch_buffer p \<noteq> [] \<Longrightarrow>
   batch_buffer (fst (snd (flush_batch (p, db)))) = [] \<and>
   (fst (flush_batch (p, db)), snd (snd (flush_batch (p, db)))) =
     execute_batch_insert db (batch_buffer p)"
  by (cases "execute_batch_insert db (batch_buffer p)")
     (auto simp: flush_batch_def Let_def split: option.splits)

text \<open>
  C9 (as the code has it). The batch processor has one buffer for the points of all
  vehicles. A point that leaves the buffer below the batch size is appended and nothing
  else happens. A point that brings the buffer to the batch size, whichever vehicles its
  points belong to, has the whole buffer flushed at once: the buffer is left empty, and all
  the buffered points and the new one, in order of arrival, go to one bulk upsert, whose
  outcome is the outcome of the call.
\<close>

theorem size_trigger_flushes_shared_buffer:
  "(length (batch_buffer p) + 1 < batch_size p \<longrightarrow>
      add_gps_data gps_data (p, db) =
        (None, p\<lparr>batch_buffer := batch_buffer p @ [buffer_row gps_data]\<rparr>, db)) \<and>
   (batch_size p \<le> length (batch_buffer p) + 1 \<longrightarrow>
      batch_buffer (fst (snd (add_gps_data gps_data (p, db)))) = [] \<and>
      (fst (add_gps_data gps_data (p, db)), snd (snd (add_gps_data gps_data (p, db)))) =
        execute_batch_insert db (batch_buffer p @ [buffer_row gps_data]))"
proof (intro conjI impI)
  assume "length (batch_buffer p) + 1 < batch_size p"
  then show "add_gps_data gps_data (p, db) =
        (None, p\<lparr>batch_buffer := batch_buffer p @ [buffer_row gps_data]\<rparr>, db)"
    by (rule add_gps_data_below_batch_size)
next
  assume full: "batch_size p \<le> length (batch_buffer p) + 1"
  note eq = add_gps_data_at_batch_size [OF full, of gps_data db]
  from flush_batch_nonempty
    [of "p\<lparr>batch_buffer := batch_buffer p @ [buffer_row gps_data]\<rparr>" db]
  show "batch_buffer (fst (snd (add_gps_data gps_data (p, db)))) = []"
    and "(fst (add_gps_data gps_data (p, db)), snd (snd (add_gps_data gps_data (p, db)))) =
        execute_batch_insert db (batch_buffer p @ [buffer_row gps_data])"
    by (simp_all add: eq)
qed

text \<open>
  A processor with a batch size of 2, empty and with one point of vehicle \<open>B\<close> waiting.
\<close>

lemma shared_buffer_insert:
  "execute_batch_insert first_day_table
     [buffer_row (batch_point ''B'' 1), buffer_row (batch_point ''A'' 2)] =
   (None, first_day_table\<lparr>table_rows :=
      [buffer_row (batch_point ''B'' 1), buffer_row (batch_point ''A'' 2)]\<rparr>)"
  by (simp add: execute_batch_insert_def insert_on_conflict_def in_partition_def
      first_day_table_def batch_point_def buffer_row_def row_key_def)

text \<open>
  C9 at that processor: the point of \<open>B\<close> is appended; the point of \<open>A\<close> that follows
  empties the buffer and both points are written.
\<close>

theorem size_trigger_flushes_shared_buffer_witness:
  "length (batch_buffer (new_processor\<lparr>batch_size := 2\<rparr>)) + 1
     < batch_size (new_processor\<lparr>batch_size := 2\<rparr>) \<and>
   add_gps_data (batch_point ''B'' 1) (new_processor\<lparr>batch_size := 2\<rparr>, first_day_table) =
     (None,
      new_processor\<lparr>batch_size := 2, batch_buffer := [buffer_row (batch_point ''B'' 1)]\<rparr>,
      first_day_table) \<and>
   batch_size (new_processor\<lparr>batch_size := 2, batch_buffer := [buffer_row (batch_point ''B'' 1)]\<rparr>)
     \<le> length (batch_buffer
          (new_processor\<lparr>batch_size := 2, batch_buffer := [buffer_row (batch_point ''B'' 1)]\<rparr>)) + 1 \<and>
   batch_buffer (fst (snd (add_gps_data (batch_point ''A'' 2)
     (new_processor\<lparr>batch_size := 2, batch_buffer := [buffer_row (batch_point ''B'' 1)]\<rparr>,
      first_day_table)))) = [] \<and>
   snd (snd (add_gps_data (batch_point ''A'' 2)
     (new_processor\<lparr>batch_size := 2, batch_buffer := [buffer_row (batch_point ''B'' 1)]\<rparr>,
      first_day_table))) =
     first_day_table\<lparr>table_rows :=
       [buffer_row (batch_point ''B'' 1), buffer_row (batch_point ''A'' 2)]\<rparr>"
  using size_trigger_flushes_shared_buffer
      [of "new_processor\<lparr>batch_size := 2\<rparr>" "batch_point ''B'' 1" first_day_table]
    size_trigger_flushes_shared_buffer
      [of "new_processor\<lparr>batch_size := 2, batch_buffer := [buffer_row (batch_point ''B'' 1)]\<rparr>"
          "batch_point ''A'' 2" first_day_table]
    shared_buffer_insert
  by (simp add: new_processor_def)

text \<open>
  C9 as stated fails: vehicle \<open>B\<close> has one point waiting when the first point of vehicle
  \<open>A\<close> arrives. The buffer then holds one point of each vehicle, which is the batch size
  of 2 for neither of them; yet the call flushes, and the point of \<open>B\<close> has left the
  buffer and is in the table.
\<close>

theorem size_trigger_other_entity_counterexample:
  "add_gps_data (batch_point ''B'' 1) (new_processor\<lparr>batch_size := 2\<rparr>, first_day_table) =
     (None,
      new_processor\<lparr>batch_size := 2, batch_buffer := [buffer_row (batch_point ''B'' 1)]\<rparr>,
      first_day_table) \<and>
   add_gps_data (batch_point ''A'' 2)
     (new_processor\<lparr>batch_size := 2, batch_buffer := [buffer_row (batch_point ''B'' 1)]\<rparr>,
      first_day_table) =
     (None,
      \<lparr>batch_size = 2, batch_buffer = [], total_processed = 2, batch_count = 1\<rparr>,
      first_day_table\<lparr>table_rows :=
        [buffer_row (batch_point ''B'' 1), buffer_row (batch_point ''A'' 2)]\<rparr>)"
  by (simp add: add_gps_data_def flush_batch_def shared_buffer_insert new_processor_def
      Let_def)
section \<open>Properties of the conversions\<close>

lemma unit_index_Suc:
  "unit_index p (Suc k) = unit_index p k + 2 ^ (k div 2 ^ p - 1)"
proof (cases "Suc (k mod 2 ^ p) = 2 ^ p")
  case True
  then have m: "Suc k mod 2 ^ p = 0" and d: "Suc k div 2 ^ p = Suc (k div 2 ^ p)"
    by (simp_all add: mod_Suc div_Suc)
  show ?thesis
  proof (cases "k div 2 ^ p = 0")
    case z: True
    with True m d show ?thesis
      by (simp add: unit_index_def magnitude_def)
  next
    case False
    then obtain e where e: "k div 2 ^ p = Suc e" by (cases "k div 2 ^ p") auto
    have "(2 ^ p + k mod 2 ^ p) * 2 ^ e + 2 ^ e = (2 ^ p + Suc (k mod 2 ^ p)) * 2 ^ e"
      by (simp add: algebra_simps)
    also have "\<dots> = (2 ^ p + 2 ^ p) * 2 ^ e" using True by simp
    also have "\<dots> = 2 ^ p * 2 ^ Suc e" by (simp add: algebra_simps)
    finally show ?thesis
      using m d e by (simp add: unit_index_def magnitude_def)
  qed
next
  case False
  then have m: "Suc k mod 2 ^ p = Suc (k mod 2 ^ p)" and d: "Suc k div 2 ^ p = k div 2 ^ p"
    by (simp_all add: mod_Suc div_Suc)
  show ?thesis
    using m d by (simp add: unit_index_def magnitude_def algebra_simps)
qed

lemma unit_index_strict_mono: "k < k' \<Longrightarrow> unit_index p k < unit_index p k'"
  by (rule lift_Suc_mono_less) (simp add: unit_index_Suc)

lemma unit_index_mono: "k \<le> k' \<Longrightarrow> unit_index p k \<le> unit_index p k'"
  by (rule lift_Suc_mono_le) (simp_all add: unit_index_Suc)

lemma unit_index_inj: "unit_index p k = unit_index p k' \<Longrightarrow> k = k'"
  using unit_index_strict_mono [of k k' p] unit_index_strict_mono [of k' k p]
  by (cases k k' rule: linorder_cases) auto

lemma round_even_nearest:
  fixes S :: "nat \<Rightarrow> int" and u c :: int and rem half R0 :: nat
  assumes mono: "\<And>k. S k < S (Suc k)"
    and u: "u = S R0 + int rem * c"
    and nxt: "S (Suc R0) = S R0 + 2 * int half * c"
    and rem: "rem < 2 * half" and c: "0 < c"
  shows "\<bar>S (round_even R0 rem half) - u\<bar> \<le> \<bar>S k - u\<bar>"
    and "\<bar>S k - u\<bar> = \<bar>S (round_even R0 rem half) - u\<bar> \<Longrightarrow> k \<noteq> round_even R0 rem half
           \<Longrightarrow> even (round_even R0 rem half)"
proof -
  define A where "A = int rem * c"
  define H where "H = int half * c"
  have A0: "0 \<le> A" using c by (simp add: A_def)
  have cmp: "rem < half \<Longrightarrow> A < H" "rem = half \<Longrightarrow> A = H" "half < rem \<Longrightarrow> H < A"
    using c by (simp_all add: A_def H_def)
  have A2: "A < 2 * H"
  proof -
    from rem have "int rem < 2 * int half" by simp
    then have "int rem * c < (2 * int half) * c" using c by (rule mult_strict_right_mono)
    then show ?thesis by (simp add: A_def H_def)
  qed
  have u': "u = S R0 + A" by (simp add: u A_def)
  have nxt': "S (Suc R0) = S R0 + 2 * H" by (simp add: nxt H_def)
  have lo: "S k \<le> S R0" if "k \<le> R0" for k
    using that by (rule lift_Suc_mono_le [of S, rotated]) (simp add: less_imp_le mono)
  have lo': "S k < S R0" if "k < R0" for k
    using that by (rule lift_Suc_mono_less [of S, rotated]) (simp add: mono)
  have hi: "S (Suc R0) \<le> S k" if "Suc R0 \<le> k" for k
    using that by (rule lift_Suc_mono_le [of S, rotated]) (simp add: less_imp_le mono)
  have hi': "S (Suc R0) < S k" if "Suc R0 < k" for k
    using that by (rule lift_Suc_mono_less [of S, rotated]) (simp add: mono)
  consider (down) "rem < half" | (tie) "rem = half" | (up) "half < rem" by linarith
  then show "\<bar>S (round_even R0 rem half) - u\<bar> \<le> \<bar>S k - u\<bar>"
  proof cases
    case down
    then have R: "round_even R0 rem half = R0" by (simp add: round_even_def)
    from cmp(1) [OF down] have AH: "A < H" .
    show ?thesis
    proof (cases "k \<le> R0")
      case True
      from lo [OF True] u' A0 show ?thesis unfolding R by linarith
    next
      case False
      then have "Suc R0 \<le> k" by simp
      from hi [OF this] nxt' u' A0 AH show ?thesis unfolding R by linarith
    qed
  next
    case tie
    from cmp(2) [OF tie] have AH: "A = H" .
    have R: "round_even R0 rem half = R0 \<or> round_even R0 rem half = Suc R0"
      by (simp add: round_even_def)
    show ?thesis
    proof (cases "k \<le> R0")
      case True
      from R show ?thesis
      proof
        assume r: "round_even R0 rem half = R0"
        from lo [OF True] u' nxt' A0 AH show ?thesis unfolding r by linarith
      next
        assume r: "round_even R0 rem half = Suc R0"
        from lo [OF True] u' nxt' A0 AH show ?thesis unfolding r by linarith
      qed
    next
      case False
      then have "Suc R0 \<le> k" by simp
      note h = hi [OF this]
      from R show ?thesis
      proof
        assume r: "round_even R0 rem half = R0"
        from h u' nxt' A0 AH show ?thesis unfolding r by linarith
      next
        assume r: "round_even R0 rem half = Suc R0"
        from h u' nxt' A0 AH show ?thesis unfolding r by linarith
      qed
    qed
  next
    case up
    then have R: "round_even R0 rem half = Suc R0" by (simp add: round_even_def)
    from cmp(3) [OF up] have AH: "H < A" .
    show ?thesis
    proof (cases "k \<le> R0")
      case True
      from lo [OF True] u' nxt' A0 AH A2 show ?thesis unfolding R by linarith
    next
      case False
      then have "Suc R0 \<le> k" by simp
      from hi [OF this] nxt' u' A0 AH A2 show ?thesis unfolding R by linarith
    qed
  qed
  assume eq: "\<bar>S k - u\<bar> = \<bar>S (round_even R0 rem half) - u\<bar>" and ne: "k \<noteq> round_even R0 rem half"
  consider (down) "rem < half" | (tie) "rem = half" | (up) "half < rem" by linarith
  then show "even (round_even R0 rem half)"
  proof cases
    case down
    then have R: "round_even R0 rem half = R0" by (simp add: round_even_def)
    from cmp(1) [OF down] have AH: "A < H" .
    from ne R have "k < R0 \<or> Suc R0 \<le> k" by auto
    then have False
    proof
      assume "k < R0"
      from lo' [OF this] u' A0 eq show False unfolding R by linarith
    next
      assume "Suc R0 \<le> k"
      from hi [OF this] nxt' u' A0 AH eq show False unfolding R by linarith
    qed
    then show ?thesis ..
  next
    case tie
    then show ?thesis by (auto simp: round_even_def)
  next
    case up
    then have R: "round_even R0 rem half = Suc R0" by (simp add: round_even_def)
    from cmp(3) [OF up] have AH: "H < A" .
    from ne R have "k \<le> R0 \<or> Suc R0 < k" by auto
    then have False
    proof
      assume "k \<le> R0"
      from lo [OF this] u' nxt' A0 AH A2 eq show False unfolding R by linarith
    next
      assume "Suc R0 < k"
      from hi' [OF this] nxt' u' A0 AH A2 eq show False unfolding R by linarith
    qed
    then show ?thesis ..
  qed
qed

lemma split_fields:
  fixes n P Q :: nat
  assumes "0 < P" "0 < Q"
  shows "n = (n div (Q * P)) * (Q * P) + ((n div P) mod Q) * P + n mod P"
proof -
  have "n div (Q * P) = (n div P) div Q"
    by (simp add: div_mult2_eq mult.commute)
  then have "(n div (Q * P)) * Q + (n div P) mod Q = n div P"
    by simp
  then have "((n div (Q * P)) * Q + (n div P) mod Q) * P + n mod P = n"
    by simp
  then show ?thesis by (simp add: algebra_simps)
qed

lemma join_fields:
  fixes s mag P Q :: nat
  assumes "mag < Q * P" "0 < P"
  shows "(s * (Q * P) + mag) div (Q * P) = s"
    and "((s * (Q * P) + mag) div P) mod Q = mag div P"
    and "(s * (Q * P) + mag) mod P = mag mod P"
proof -
  from assms(1) have "Q * P \<noteq> 0" by (cases "Q * P = 0") simp_all
  from div_mult_self3 [OF this, of s mag] assms(1)
  show "(s * (Q * P) + mag) div (Q * P) = s" by simp
  have "(s * (Q * P) + mag) div P = s * Q + mag div P"
    using assms(2) by (simp add: algebra_simps div_mult_self3 [of P "s * Q" mag])
  moreover have "mag div P < Q"
    using assms by (simp add: less_mult_imp_div_less)
  ultimately show "((s * (Q * P) + mag) div P) mod Q = mag div P" by simp
  have "(s * (Q * P) + mag) mod P = (mag + P * (s * Q)) mod P" by (simp add: algebra_simps)
  also have "\<dots> = mag mod P" by (rule mod_mult_self2)
  finally show "(s * (Q * P) + mag) mod P = mag mod P" .
qed

lemma unit_index_fields: "m < 2 ^ p \<Longrightarrow> unit_index p (e * 2 ^ p + m) = magnitude p e m"
  by (simp add: unit_index_def)

text \<open>The fields of a pattern of double precision, and a pattern built from its fields.\<close>

lemma sign64_less: "sign64 x < 2"
proof -
  have "unat x < 2 ^ 64" using unsigned_less [of x] by simp
  then show ?thesis by (simp add: sign64_def less_mult_imp_div_less)
qed

lemma exponent64_less: "exponent64 x < 2048"
  by (simp add: exponent64_def)

lemma fraction64_less: "fraction64 x < 2 ^ 52"
  by (simp add: fraction64_def)

lemma unat_fields64:
  "unat x = sign64 x * 2 ^ 63 + (exponent64 x * 2 ^ 52 + fraction64 x)"
  using split_fields [of "2 ^ 52" "2 ^ 11" "unat x"]
  by (simp add: sign64_def exponent64_def fraction64_def)

lemma word64_eqI:
  "sign64 x = sign64 y \<Longrightarrow> exponent64 x = exponent64 y \<Longrightarrow> fraction64 x = fraction64 y
   \<Longrightarrow> x = y"
  by (simp add: word_unat_eq_iff unat_fields64)

lemma pack64:
  assumes "s < 2" "mag < 2 ^ 63"
  shows "sign64 (of_nat (s * 2 ^ 63 + mag)) = s"
    and "exponent64 (of_nat (s * 2 ^ 63 + mag)) = mag div 2 ^ 52"
    and "fraction64 (of_nat (s * 2 ^ 63 + mag)) = mag mod 2 ^ 52"
proof -
  define n where "n = s * 2 ^ 63 + mag"
  from assms have "n < 2 ^ 64" by (simp add: n_def)
  then have "unat (of_nat n :: 64 word) = n"
    by (simp only: unat_of_nat) simp
  then have u: "unat (of_nat (s * 2 ^ 63 + mag) :: 64 word) = s * 2 ^ 63 + mag"
    by (simp only: n_def)
  from assms(2) have m: "mag < 2 ^ 11 * 2 ^ 52" by simp
  note j = join_fields [OF m, of s]
  from j(1) show "sign64 (of_nat (s * 2 ^ 63 + mag)) = s"
    unfolding sign64_def u by simp
  from j(2) show "exponent64 (of_nat (s * 2 ^ 63 + mag)) = mag div 2 ^ 52"
    unfolding exponent64_def u by simp
  from j(3) show "fraction64 (of_nat (s * 2 ^ 63 + mag)) = mag mod 2 ^ 52"
    unfolding fraction64_def u by simp
qed

text \<open>The same for single precision.\<close>

lemma sign32_less: "sign32 w < 2"
proof -
  have "unat w < 2 ^ 32" using unsigned_less [of w] by simp
  then show ?thesis by (simp add: sign32_def less_mult_imp_div_less)
qed

lemma exponent32_less: "exponent32 w < 256"
  by (simp add: exponent32_def)

lemma fraction32_less: "fraction32 w < 2 ^ 23"
  by (simp add: fraction32_def)

lemma unat_fields32:
  "unat w = sign32 w * 2 ^ 31 + (exponent32 w * 2 ^ 23 + fraction32 w)"
  using split_fields [of "2 ^ 23" "2 ^ 8" "unat w"]
  by (simp add: sign32_def exponent32_def fraction32_def)

lemma pack32:
  assumes "s < 2" "mag < 2 ^ 31"
  shows "sign32 (of_nat (s * 2 ^ 31 + mag)) = s"
    and "exponent32 (of_nat (s * 2 ^ 31 + mag)) = mag div 2 ^ 23"
    and "fraction32 (of_nat (s * 2 ^ 31 + mag)) = mag mod 2 ^ 23"
proof -
  define n where "n = s * 2 ^ 31 + mag"
  from assms have "n < 2 ^ 32" by (simp add: n_def)
  then have "unat (of_nat n :: 32 word) = n"
    by (simp only: unat_of_nat) simp
  then have u: "unat (of_nat (s * 2 ^ 31 + mag) :: 32 word) = s * 2 ^ 31 + mag"
    by (simp only: n_def)
  from assms(2) have m: "mag < 2 ^ 8 * 2 ^ 23" by simp
  note j = join_fields [OF m, of s]
  from j(1) show "sign32 (of_nat (s * 2 ^ 31 + mag)) = s"
    unfolding sign32_def u by simp
  from j(2) show "exponent32 (of_nat (s * 2 ^ 31 + mag)) = mag div 2 ^ 23"
    unfolding exponent32_def u by simp
  from j(3) show "fraction32 (of_nat (s * 2 ^ 31 + mag)) = mag mod 2 ^ 23"
    unfolding fraction32_def u by simp
qed

text \<open>\<open>top_bit m\<close> is the position of the leading one of \<open>m\<close>.\<close>

lemma top_bit_bounds: "0 < m \<Longrightarrow> 2 ^ top_bit m \<le> m \<and> m < 2 ^ Suc (top_bit m)"
proof (induction m rule: top_bit.induct)
  case (1 m)
  show ?case
  proof (cases "m < 2")
    case True
    with 1 have "m = 1" by simp
    then show ?thesis by (simp add: top_bit.simps)
  next
    case False
    then have "0 < m div 2" by simp
    from 1(1) [OF False this] have "2 ^ top_bit (m div 2) \<le> m div 2"
      "m div 2 < 2 ^ Suc (top_bit (m div 2))" by simp_all
    then have "2 * 2 ^ top_bit (m div 2) \<le> m" "m < 2 * 2 ^ Suc (top_bit (m div 2))"
      by linarith+
    with False show ?thesis by (simp add: top_bit.simps [of m])
  qed
qed

lemma fields_of_sum:
  fixes e f P :: nat
  assumes "f < P"
  shows "(e * P + f) div P = e" and "(e * P + f) mod P = f"
  using assms by simp_all

lemma scale_value:
  "real (a * 2 ^ 925) / 2 ^ 1074 = real a / 2 ^ 149"
proof -
  have "(2::real) ^ 1074 = 2 ^ 925 * 2 ^ 149"
    by (simp only: power_add [symmetric]) simp
  then show ?thesis by simp
qed

text \<open>
  The fields of \<open>py_float w\<close> for a zero, a normal and a subnormal single, and its
  magnitude in all three cases: that of \<open>w\<close>, in the finer unit.
\<close>

lemma py_float_zero:
  assumes "exponent32 w = 0" "fraction32 w = 0"
  shows "sign64 (py_float w) = sign32 w \<and> exponent64 (py_float w) = 0 \<and>
         fraction64 (py_float w) = 0"
proof -
  from assms have pf: "py_float w = of_nat (sign32 w * 2 ^ 63 + 0)"
    by (simp add: py_float_def Let_def sign32_def exponent32_def fraction32_def)
  have "(0::nat) < 2 ^ 63" by simp
  from pack64 [OF sign32_less this, of w] show ?thesis
    unfolding pf by simp
qed

lemma py_float_normal:
  assumes "exponent32 w \<noteq> 0" "exponent32 w \<noteq> 255"
  shows "sign64 (py_float w) = sign32 w \<and> exponent64 (py_float w) = exponent32 w + 896 \<and>
         fraction64 (py_float w) = fraction32 w * 2 ^ 29"
proof -
  define mag where "mag = (exponent32 w + 896) * 2 ^ 52 + fraction32 w * 2 ^ 29"
  from assms have pf: "py_float w = of_nat (sign32 w * 2 ^ 63 + mag)"
    by (simp add: py_float_def Let_def sign32_def exponent32_def fraction32_def mag_def)
  have f: "fraction32 w * 2 ^ 29 < 2 ^ 52"
    using fraction32_less [of w] by simp
  have e: "exponent32 w + 896 < 2047"
    using exponent32_less [of w] by simp
  have "mag < 2047 * 2 ^ 52 + 2 ^ 52"
    unfolding mag_def using f e by (intro add_le_less_mono mult_right_mono) simp_all
  then have m: "mag < 2 ^ 63" by simp
  note p = pack64 [OF sign32_less m, of w]
  from fields_of_sum [OF f, of "exponent32 w + 896"] p show ?thesis
    unfolding pf mag_def by simp
qed

lemma py_float_subnormal:
  assumes "exponent32 w = 0" "fraction32 w \<noteq> 0"
  shows "sign64 (py_float w) = sign32 w \<and>
         exponent64 (py_float w) = top_bit (fraction32 w) + 874 \<and>
         fraction64 (py_float w) =
           (fraction32 w - 2 ^ top_bit (fraction32 w)) * 2 ^ (52 - top_bit (fraction32 w))"
proof -
  define k where "k = top_bit (fraction32 w)"
  define f where "f = (fraction32 w - 2 ^ k) * 2 ^ (52 - k)"
  define mag where "mag = (k + 874) * 2 ^ 52 + f"
  from assms have pf: "py_float w = of_nat (sign32 w * 2 ^ 63 + mag)"
    by (simp add: py_float_def Let_def sign32_def exponent32_def fraction32_def mag_def
        f_def k_def)
  from assms(2) have pos: "0 < fraction32 w" by simp
  from top_bit_bounds [OF pos] have b: "2 ^ k \<le> fraction32 w" "fraction32 w < 2 * 2 ^ k"
    by (simp_all add: k_def)
  have "(2::nat) ^ k < 2 ^ 23"
    using b(1) fraction32_less [of w] by linarith
  then have k: "k < 23" using power_less_imp_less_exp [of 2 k 23] by simp
  from b have "fraction32 w - 2 ^ k < 2 ^ k" by linarith
  then have "(fraction32 w - 2 ^ k) * 2 ^ (52 - k) < 2 ^ k * 2 ^ (52 - k)"
    by (rule mult_strict_right_mono) simp
  also have "\<dots> = 2 ^ 52" using k by (simp add: power_add [symmetric])
  finally have f: "f < 2 ^ 52" by (simp add: f_def)
  from k have e: "k + 874 < 2047" by simp
  have "mag < 2047 * 2 ^ 52 + 2 ^ 52"
    unfolding mag_def using f e by (intro add_le_less_mono mult_right_mono) simp_all
  then have m: "mag < 2 ^ 63" by simp
  note p = pack64 [OF sign32_less m, of w]
  from fields_of_sum [OF f, of "k + 874"] p show ?thesis
    unfolding pf mag_def by (simp add: f_def k_def)
qed

lemma py_float_magnitude:
  assumes "exponent32 w \<noteq> 255"
  shows "sign64 (py_float w) = sign32 w"
    and "exponent64 (py_float w) \<noteq> 2047"
    and "magnitude 52 (exponent64 (py_float w)) (fraction64 (py_float w)) =
         magnitude 23 (exponent32 w) (fraction32 w) * 2 ^ 925"
proof -
  consider (zero) "exponent32 w = 0" "fraction32 w = 0"
    | (sub) "exponent32 w = 0" "fraction32 w \<noteq> 0"
    | (normal) "exponent32 w \<noteq> 0" by blast
  then have "sign64 (py_float w) = sign32 w \<and> exponent64 (py_float w) \<noteq> 2047 \<and>
     magnitude 52 (exponent64 (py_float w)) (fraction64 (py_float w)) =
         magnitude 23 (exponent32 w) (fraction32 w) * 2 ^ 925"
  proof cases
    case zero
    with py_float_zero [OF zero] show ?thesis by (simp add: magnitude_def)
  next
    case sub
    define m where "m = fraction32 w"
    define k where "k = top_bit m"
    from sub(2) have pos: "0 < m" by (simp add: m_def)
    from top_bit_bounds [OF pos] have b: "2 ^ k \<le> m" by (simp add: k_def)
    have "(2::nat) ^ k < 2 ^ 23"
      using b fraction32_less [of w] unfolding m_def by linarith
    then have k: "k < 23" using power_less_imp_less_exp [of 2 k 23] by simp
    have "2 ^ 52 + (m - 2 ^ k) * 2 ^ (52 - k) = 2 ^ k * 2 ^ (52 - k) + (m - 2 ^ k) * 2 ^ (52 - k)"
      using k by (simp add: power_add [symmetric])
    also have "\<dots> = m * 2 ^ (52 - k)"
      using b by (simp add: add_mult_distrib [symmetric])
    finally have "(2 ^ 52 + (m - 2 ^ k) * 2 ^ (52 - k)) * 2 ^ (873 + k) =
        m * (2 ^ (52 - k) * 2 ^ (873 + k))" by simp
    also have "(2::nat) ^ (52 - k) * 2 ^ (873 + k) = 2 ^ 925"
      using k by (simp only: power_add [symmetric]) simp
    finally have "(2 ^ 52 + (m - 2 ^ k) * 2 ^ (52 - k)) * 2 ^ (873 + k) = m * 2 ^ 925" .
    with py_float_subnormal [OF sub] sub k show ?thesis
      by (simp add: magnitude_def m_def k_def)
  next
    case normal
    with assms have e: "exponent32 w \<noteq> 0" "exponent32 w \<noteq> 255" by simp_all
    define e' where "e' = exponent32 w - 1"
    from e have ee: "exponent32 w = Suc e'" by (simp add: e'_def)
    have "(2 ^ 52 + fraction32 w * 2 ^ 29) * 2 ^ (896 + e') =
        (2 ^ 23 + fraction32 w) * (2 ^ 29 * 2 ^ (896 + e'))"
      by (simp add: algebra_simps)
    also have "(2::nat) ^ 29 * 2 ^ (896 + e') = 2 ^ e' * 2 ^ 925"
      by (simp only: power_add [symmetric]) simp
    finally have "(2 ^ 52 + fraction32 w * 2 ^ 29) * 2 ^ (896 + e') =
        (2 ^ 23 + fraction32 w) * 2 ^ e' * 2 ^ 925" by simp
    with py_float_normal [OF e] exponent32_less [of w] ee show ?thesis
      by (simp add: magnitude_def)
  qed
  then show "sign64 (py_float w) = sign32 w"
    and "exponent64 (py_float w) \<noteq> 2047"
    and "magnitude 52 (exponent64 (py_float w)) (fraction64 (py_float w)) =
         magnitude 23 (exponent32 w) (fraction32 w) * 2 ^ 925"
    by simp_all
qed

lemma py_float_special:
  assumes "exponent32 w = 255"
  shows "sign64 (py_float w) = sign32 w"
    and "exponent64 (py_float w) = 2047"
    and "fraction64 (py_float w) = 0 \<longleftrightarrow> fraction32 w = 0"
proof -
  define f where "f = (if fraction32 w = 0 then 0 else 2 ^ 51 + (fraction32 w mod 2 ^ 22) * 2 ^ 29)"
  define mag where "mag = 2047 * 2 ^ 52 + f"
  from assms have pf: "py_float w = of_nat (sign32 w * 2 ^ 63 + mag)"
    by (simp add: py_float_def Let_def sign32_def exponent32_def fraction32_def mag_def f_def)
  have "(fraction32 w mod 2 ^ 22) * 2 ^ 29 < 2 ^ 22 * 2 ^ 29"
    by (rule mult_strict_right_mono) simp_all
  then have f: "f < 2 ^ 52" by (simp add: f_def)
  then have m: "mag < 2 ^ 63" by (simp add: mag_def)
  note p = pack64 [OF sign32_less m, of w]
  from fields_of_sum [OF f, of 2047] p
  have "sign64 (py_float w) = sign32 w \<and> exponent64 (py_float w) = 2047 \<and>
        fraction64 (py_float w) = f"
    unfolding pf mag_def by simp
  then show "sign64 (py_float w) = sign32 w"
    and "exponent64 (py_float w) = 2047"
    and "fraction64 (py_float w) = 0 \<longleftrightarrow> fraction32 w = 0"
    by (simp_all add: f_def)
qed

lemma py_float_widened: "widened w (py_float w)"
proof (cases "exponent32 w = 255")
  case True
  from py_float_special [OF True] True show ?thesis
    by (auto simp: widened_def nan32_def nan64_def infinite32_def infinite64_def)
next
  case False
  note m = py_float_magnitude [OF False]
  have "value64 (py_float w) = value32 w"
    by (simp add: value64_def value32_def m scale_value del: of_nat_mult)
  with m False show ?thesis
    by (simp add: widened_def nan32_def infinite32_def finite64_def)
qed

text \<open>The fields of \<open>np_float32 x\<close>, case by case.\<close>

lemma np_float32_nan:
  assumes "exponent64 x = 2047" "fraction64 x \<noteq> 0"
  shows "sign32 (np_float32 x) = sign64 x \<and> exponent32 (np_float32 x) = 255 \<and>
         fraction32 (np_float32 x) \<noteq> 0"
proof -
  define t where "t = fraction64 x div 2 ^ 29"
  define f where "f = (if t div 2 ^ 22 = 1 then t else t + 2 ^ 22)"
  define mag where "mag = 255 * 2 ^ 23 + f"
  from assms have np: "np_float32 x = of_nat (sign64 x * 2 ^ 31 + mag)"
    by (simp add: np_float32_def Let_def sign64_def exponent64_def fraction64_def mag_def
        f_def t_def)
  have t: "t < 2 ^ 23"
    using fraction64_less [of x] by (simp add: t_def less_mult_imp_div_less)
  then have "t div 2 ^ 22 < 2" by (simp add: less_mult_imp_div_less)
  then have "t div 2 ^ 22 = 1 \<or> t < 2 ^ 22"
    by (cases "t div 2 ^ 22 = 0") (auto simp: div_eq_0_iff)
  then have f: "f < 2 ^ 23" "f \<noteq> 0"
    using t by (auto simp: f_def)
  then have m: "mag < 2 ^ 31" by (simp add: mag_def)
  note p = pack32 [OF sign64_less m, of x]
  from fields_of_sum [OF f(1), of 255] p f(2) show ?thesis
    unfolding np mag_def by simp
qed

lemma np_float32_inf:
  assumes "exponent64 x = 2047" "fraction64 x = 0"
  shows "sign32 (np_float32 x) = sign64 x \<and> exponent32 (np_float32 x) = 255 \<and>
         fraction32 (np_float32 x) = 0"
proof -
  from assms have np: "np_float32 x = of_nat (sign64 x * 2 ^ 31 + 255 * 2 ^ 23)"
    by (simp add: np_float32_def Let_def sign64_def exponent64_def fraction64_def)
  have m: "(255::nat) * 2 ^ 23 < 2 ^ 31" by simp
  note p = pack32 [OF sign64_less m, of x]
  from p show ?thesis unfolding np by simp
qed

lemma np_float32_large:
  assumes "897 \<le> exponent64 x" "exponent64 x \<noteq> 2047"
  defines "R \<equiv> min (round_even ((exponent64 x - 896) * 2 ^ 23 + fraction64 x div 2 ^ 29)
                        (fraction64 x mod 2 ^ 29) (2 ^ 28)) (255 * 2 ^ 23)"
  shows "sign32 (np_float32 x) = sign64 x \<and> exponent32 (np_float32 x) = R div 2 ^ 23 \<and>
         fraction32 (np_float32 x) = R mod 2 ^ 23"
proof -
  from assms(1,2) have np: "np_float32 x = of_nat (sign64 x * 2 ^ 31 + R)"
    by (simp add: np_float32_def Let_def sign64_def exponent64_def fraction64_def R_def)
  have "R \<le> 255 * 2 ^ 23" by (simp add: R_def)
  then have m: "R < 2 ^ 31" by simp
  from pack32 [OF sign64_less m, of x] show ?thesis unfolding np by simp
qed

lemma np_float32_small:
  assumes "exponent64 x < 897"
  defines "sig \<equiv> (if exponent64 x = 0 then fraction64 x else 2 ^ 52 + fraction64 x)"
    and "sh \<equiv> (if exponent64 x = 0 then 925 else 926 - exponent64 x)"
  defines "R \<equiv> round_even (sig div 2 ^ sh) (sig mod 2 ^ sh) (2 ^ (sh - 1))"
  shows "sign32 (np_float32 x) = sign64 x \<and> exponent32 (np_float32 x) = R div 2 ^ 23 \<and>
         fraction32 (np_float32 x) = R mod 2 ^ 23 \<and> R \<le> 2 ^ 23"
proof -
  from assms(1) have np: "np_float32 x = of_nat (sign64 x * 2 ^ 31 + R)"
    by (simp add: np_float32_def Let_def sign64_def exponent64_def fraction64_def R_def
        sig_def sh_def)
  have sig: "sig < 2 ^ 53"
    using fraction64_less [of x] by (simp add: sig_def)
  have sh: "30 \<le> sh" using assms(1) by (auto simp: sh_def)
  have "(2::nat) ^ 30 \<le> 2 ^ sh" using sh by (intro power_increasing) simp_all
  then have "sig div 2 ^ sh \<le> sig div 2 ^ 30"
    by (intro div_le_mono2) simp_all
  also have "\<dots> < 2 ^ 23" using sig by (simp add: less_mult_imp_div_less)
  finally have q: "sig div 2 ^ sh < 2 ^ 23" .
  then have r: "R \<le> 2 ^ 23" by (simp add: R_def round_even_def)
  then have m: "R < 2 ^ 31" by simp
  from pack32 [OF sign64_less m, of x] r show ?thesis unfolding np by simp
qed

lemma large_sandwich:
  fixes e m :: nat
  assumes "897 \<le> e" "m < 2 ^ 52"
  defines "R0 \<equiv> (e - 896) * 2 ^ 23 + m div 2 ^ 29"
  shows "magnitude 52 e m = unit_index 23 R0 * 2 ^ 925 + (m mod 2 ^ 29) * 2 ^ (e - 1)"
    and "unit_index 23 (Suc R0) * 2 ^ 925 = unit_index 23 R0 * 2 ^ 925 + 2 * 2 ^ 28 * 2 ^ (e - 1)"
proof -
  define d where "d = e - 897"
  from assms(1) have e: "e = 897 + d" by (simp add: d_def)
  define q where "q = m div 2 ^ 29"
  define rem where "rem = m mod 2 ^ 29"
  have m: "m = q * 2 ^ 29 + rem" by (simp only: q_def rem_def div_mult_mod_eq)
  have q: "q < 2 ^ 23" using assms(2) by (simp add: q_def less_mult_imp_div_less)
  have R0: "R0 = Suc d * 2 ^ 23 + q" by (simp add: R0_def e q_def)
  have u0: "unit_index 23 R0 = (2 ^ 23 + q) * 2 ^ d"
    unfolding R0 using unit_index_fields [OF q, of "Suc d"] by (simp add: magnitude_def)
  have pw: "(2::nat) ^ 29 * 2 ^ (896 + d) = 2 ^ d * 2 ^ 925"
    by (simp only: power_add [symmetric]) simp
  have "magnitude 52 e m = (2 ^ 52 + (q * 2 ^ 29 + rem)) * 2 ^ (896 + d)"
    by (simp only: m [symmetric]) (simp add: magnitude_def e)
  also have "\<dots> = (2 ^ 23 + q) * (2 ^ 29 * 2 ^ (896 + d)) + rem * 2 ^ (896 + d)"
    by (simp add: algebra_simps)
  also have "\<dots> = (2 ^ 23 + q) * 2 ^ d * 2 ^ 925 + rem * 2 ^ (896 + d)"
    by (simp only: pw)
  finally show "magnitude 52 e m = unit_index 23 R0 * 2 ^ 925 + (m mod 2 ^ 29) * 2 ^ (e - 1)"
    by (simp add: u0 rem_def e)
  have dv: "R0 div 2 ^ 23 = Suc d" unfolding R0 using q by simp
  have "unit_index 23 (Suc R0) = unit_index 23 R0 + 2 ^ (R0 div 2 ^ 23 - 1)"
    by (rule unit_index_Suc)
  then have "unit_index 23 (Suc R0) = unit_index 23 R0 + 2 ^ d"
    by (simp only: dv diff_Suc_1)
  then have "unit_index 23 (Suc R0) * 2 ^ 925 = unit_index 23 R0 * 2 ^ 925 + 2 ^ d * 2 ^ 925"
    by (simp only: add_mult_distrib)
  also have "(2::nat) ^ d * 2 ^ 925 = 2 * 2 ^ 28 * 2 ^ (896 + d)"
    using pw by simp
  finally show "unit_index 23 (Suc R0) * 2 ^ 925 =
      unit_index 23 R0 * 2 ^ 925 + 2 * 2 ^ 28 * 2 ^ (e - 1)"
    by (simp add: e)
qed

lemma small_sandwich:
  fixes e m :: nat
  assumes "e < 897" "m < 2 ^ 52"
  defines "sig \<equiv> (if e = 0 then m else 2 ^ 52 + m)"
    and "sh \<equiv> (if e = 0 then 925 else 926 - e)"
  defines "q \<equiv> sig div 2 ^ sh"
  shows "magnitude 52 e m = unit_index 23 q * 2 ^ 925 + (sig mod 2 ^ sh) * 2 ^ (e - 1)"
    and "unit_index 23 (Suc q) * 2 ^ 925 =
           unit_index 23 q * 2 ^ 925 + 2 * 2 ^ (sh - 1) * 2 ^ (e - 1)"
    and "q < 2 ^ 23"
proof -
  have sh: "sh + (e - 1) = 925" "0 < sh"
    using assms(1) by (auto simp: sh_def)
  have pw: "(2::nat) ^ sh * 2 ^ (e - 1) = 2 ^ 925"
    by (simp only: power_add [symmetric] sh)
  have sig: "sig < 2 ^ 53" using assms(2) by (simp add: sig_def)
  have "30 \<le> sh" using assms(1) by (auto simp: sh_def)
  then have "(2::nat) ^ 30 \<le> 2 ^ sh" by (intro power_increasing) simp_all
  then have "sig div 2 ^ sh \<le> sig div 2 ^ 30"
    by (intro div_le_mono2) simp_all
  also have "\<dots> < 2 ^ 23" using sig by (simp add: less_mult_imp_div_less)
  finally show q: "q < 2 ^ 23" by (simp add: q_def)
  have u0: "unit_index 23 q = q"
    using q by (simp add: unit_index_def magnitude_def)
  have mg: "magnitude 52 e m = sig * 2 ^ (e - 1)"
    by (simp add: magnitude_def sig_def)
  have "sig = q * 2 ^ sh + sig mod 2 ^ sh" by (simp only: q_def div_mult_mod_eq)
  then have "sig * 2 ^ (e - 1) = (q * 2 ^ sh + sig mod 2 ^ sh) * 2 ^ (e - 1)" by simp
  also have "\<dots> = q * (2 ^ sh * 2 ^ (e - 1)) + (sig mod 2 ^ sh) * 2 ^ (e - 1)"
    by (simp add: algebra_simps)
  finally show "magnitude 52 e m = unit_index 23 q * 2 ^ 925 + (sig mod 2 ^ sh) * 2 ^ (e - 1)"
    by (simp only: pw mg u0)
  have dv: "q div 2 ^ 23 = 0" using q by simp
  have "(2::nat) * 2 ^ (sh - 1) = 2 ^ sh"
    using sh(2) by (cases sh) simp_all
  then have "2 * 2 ^ (sh - 1) * 2 ^ (e - 1) = (2::nat) ^ 925"
    by (simp only: pw)
  moreover have "unit_index 23 (Suc q) = unit_index 23 q + 2 ^ (q div 2 ^ 23 - 1)"
    by (rule unit_index_Suc)
  then have "unit_index 23 (Suc q) = unit_index 23 q + 1"
    by (simp only: dv) simp
  then have "unit_index 23 (Suc q) * 2 ^ 925 = unit_index 23 q * 2 ^ 925 + 2 ^ 925"
    by (simp only: add_mult_distrib)
  ultimately show "unit_index 23 (Suc q) * 2 ^ 925 =
           unit_index 23 q * 2 ^ 925 + 2 * 2 ^ (sh - 1) * 2 ^ (e - 1)"
    by (simp only:)
qed

text \<open>
  The index that \<open>np_float32\<close> computes is that of a nearest single, and an even one
  when two are nearest.
\<close>

lemma single_grid_mono:
  "int (unit_index 23 k * 2 ^ 925) < int (unit_index 23 (Suc k) * 2 ^ 925)"
  by (simp add: unit_index_Suc)

lemma nearest_large:
  fixes e m :: nat
  assumes "897 \<le> e" "m < 2 ^ 52"
  defines "R \<equiv> round_even ((e - 896) * 2 ^ 23 + m div 2 ^ 29) (m mod 2 ^ 29) (2 ^ 28)"
  shows "\<bar>int (unit_index 23 R * 2 ^ 925) - int (magnitude 52 e m)\<bar>
           \<le> \<bar>int (unit_index 23 k * 2 ^ 925) - int (magnitude 52 e m)\<bar>"
    and "\<bar>int (unit_index 23 k * 2 ^ 925) - int (magnitude 52 e m)\<bar> =
         \<bar>int (unit_index 23 R * 2 ^ 925) - int (magnitude 52 e m)\<bar> \<Longrightarrow> k \<noteq> R \<Longrightarrow> even R"
proof -
  note s = large_sandwich [OF assms(1,2)]
  have u: "int (magnitude 52 e m) =
      int (unit_index 23 ((e - 896) * 2 ^ 23 + m div 2 ^ 29) * 2 ^ 925) +
      int (m mod 2 ^ 29) * int (2 ^ (e - 1))"
    by (simp only: s(1) of_nat_add of_nat_mult)
  have n: "int (unit_index 23 (Suc ((e - 896) * 2 ^ 23 + m div 2 ^ 29)) * 2 ^ 925) =
      int (unit_index 23 ((e - 896) * 2 ^ 23 + m div 2 ^ 29) * 2 ^ 925) +
      2 * int (2 ^ 28) * int (2 ^ (e - 1))"
    by (simp only: s(2) of_nat_add of_nat_mult of_nat_numeral)
  have r: "m mod 2 ^ 29 < 2 * 2 ^ 28" by simp
  have c: "0 < int (2 ^ (e - 1))" by simp
  note ne = round_even_nearest [of "\<lambda>k. int (unit_index 23 k * 2 ^ 925)", OF single_grid_mono u n r c]
  from ne(1) [of k]
  show "\<bar>int (unit_index 23 R * 2 ^ 925) - int (magnitude 52 e m)\<bar>
           \<le> \<bar>int (unit_index 23 k * 2 ^ 925) - int (magnitude 52 e m)\<bar>"
    unfolding R_def .
  assume "\<bar>int (unit_index 23 k * 2 ^ 925) - int (magnitude 52 e m)\<bar> =
         \<bar>int (unit_index 23 R * 2 ^ 925) - int (magnitude 52 e m)\<bar>" "k \<noteq> R"
  with ne(2) [of k] show "even R" unfolding R_def by blast
qed

lemma nearest_small:
  fixes e m :: nat
  assumes "e < 897" "m < 2 ^ 52"
  defines "sig \<equiv> (if e = 0 then m else 2 ^ 52 + m)"
    and "sh \<equiv> (if e = 0 then 925 else 926 - e)"
  defines "R \<equiv> round_even (sig div 2 ^ sh) (sig mod 2 ^ sh) (2 ^ (sh - 1))"
  shows "\<bar>int (unit_index 23 R * 2 ^ 925) - int (magnitude 52 e m)\<bar>
           \<le> \<bar>int (unit_index 23 k * 2 ^ 925) - int (magnitude 52 e m)\<bar>"
    and "\<bar>int (unit_index 23 k * 2 ^ 925) - int (magnitude 52 e m)\<bar> =
         \<bar>int (unit_index 23 R * 2 ^ 925) - int (magnitude 52 e m)\<bar> \<Longrightarrow> k \<noteq> R \<Longrightarrow> even R"
proof -
  note s = small_sandwich [OF assms(1,2), folded sig_def sh_def]
  have u: "int (magnitude 52 e m) =
      int (unit_index 23 (sig div 2 ^ sh) * 2 ^ 925) +
      int (sig mod 2 ^ sh) * int (2 ^ (e - 1))"
    by (simp only: s(1) of_nat_add of_nat_mult)
  have n: "int (unit_index 23 (Suc (sig div 2 ^ sh)) * 2 ^ 925) =
      int (unit_index 23 (sig div 2 ^ sh) * 2 ^ 925) +
      2 * int (2 ^ (sh - 1)) * int (2 ^ (e - 1))"
    by (simp only: s(2) of_nat_add of_nat_mult of_nat_numeral)
  have "0 < sh" using assms(1) by (auto simp: sh_def)
  then have "(2::nat) * 2 ^ (sh - 1) = 2 ^ sh" by (cases sh) simp_all
  then have r: "sig mod 2 ^ sh < 2 * 2 ^ (sh - 1)" by simp
  have c: "0 < int (2 ^ (e - 1))" by simp
  note ne = round_even_nearest [of "\<lambda>k. int (unit_index 23 k * 2 ^ 925)", OF single_grid_mono u n r c]
  from ne(1) [of k]
  show "\<bar>int (unit_index 23 R * 2 ^ 925) - int (magnitude 52 e m)\<bar>
           \<le> \<bar>int (unit_index 23 k * 2 ^ 925) - int (magnitude 52 e m)\<bar>"
    unfolding R_def .
  assume "\<bar>int (unit_index 23 k * 2 ^ 925) - int (magnitude 52 e m)\<bar> =
         \<bar>int (unit_index 23 R * 2 ^ 925) - int (magnitude 52 e m)\<bar>" "k \<noteq> R"
  with ne(2) [of k] show "even R" unfolding R_def by blast
qed

text \<open>
  A nearest index is beyond the finite singles exactly when the number has reached the
  overflow threshold.
\<close>

lemma grid_max: "unit_index 23 (255 * 2 ^ 23 - 1) * 2 ^ 925 = 2 ^ 1202 - 2 ^ 1178"
  by (simp add: unit_index_def magnitude_def)

lemma grid_top: "unit_index 23 (255 * 2 ^ 23) * 2 ^ 925 = 2 ^ 1202"
  by (simp add: unit_index_def magnitude_def)

lemma overflow_iff:
  fixes u R :: nat
  assumes near: "\<And>k. \<bar>int (unit_index 23 R * 2 ^ 925) - int u\<bar>
                       \<le> \<bar>int (unit_index 23 k * 2 ^ 925) - int u\<bar>"
    and tie: "\<And>k. \<bar>int (unit_index 23 k * 2 ^ 925) - int u\<bar> =
                   \<bar>int (unit_index 23 R * 2 ^ 925) - int u\<bar> \<Longrightarrow> k \<noteq> R \<Longrightarrow> even R"
  shows "255 * 2 ^ 23 \<le> R \<longleftrightarrow> 2 ^ 1202 - 2 ^ 1177 \<le> u"
proof -
  define A where "A = int (unit_index 23 (255 * 2 ^ 23 - 1) * 2 ^ 925)"
  define B where "B = int (unit_index 23 (255 * 2 ^ 23) * 2 ^ 925)"
  define T where "T = int (2 ^ 1202 - 2 ^ 1177)"
  define SR where "SR = int (unit_index 23 R * 2 ^ 925)"
  have A: "A = int (2 ^ 1202 - 2 ^ 1178)" unfolding A_def by (simp only: grid_max)
  have B: "B = int (2 ^ 1202)" unfolding B_def by (simp only: grid_top)
  have AB: "A + B = 2 * T" "A < T" "T < B"
    by (simp_all add: A B T_def)
  have nA: "\<bar>SR - int u\<bar> \<le> \<bar>A - int u\<bar>" and nB: "\<bar>SR - int u\<bar> \<le> \<bar>B - int u\<bar>"
    unfolding SR_def A_def B_def by (rule near)+
  have odd: "odd (255 * 2 ^ 23 - 1 :: nat)" by simp
  show ?thesis
  proof
    assume "255 * 2 ^ 23 \<le> R"
    then have "unit_index 23 (255 * 2 ^ 23) \<le> unit_index 23 R" by (rule unit_index_mono)
    then have "B \<le> SR" by (simp add: B_def SR_def)
    with nA AB have "T \<le> int u" by linarith
    then show "2 ^ 1202 - 2 ^ 1177 \<le> u" by (simp add: T_def)
  next
    assume "2 ^ 1202 - 2 ^ 1177 \<le> u"
    then have u: "T \<le> int u" by (simp add: T_def)
    show "255 * 2 ^ 23 \<le> R"
    proof (rule ccontr)
      assume "\<not> 255 * 2 ^ 23 \<le> R"
      then have le: "R \<le> 255 * 2 ^ 23 - 1" by simp
      then have "unit_index 23 R \<le> unit_index 23 (255 * 2 ^ 23 - 1)" by (rule unit_index_mono)
      then have SA: "SR \<le> A" by (simp add: A_def SR_def)
      with nB AB u have eq: "int u = T" "SR = A" by linarith+
      from eq(2) have "unit_index 23 R = unit_index 23 (255 * 2 ^ 23 - 1)"
        by (simp add: SR_def A_def)
      then have R: "R = 255 * 2 ^ 23 - 1" by (rule unit_index_inj)
      have "\<bar>B - int u\<bar> = \<bar>SR - int u\<bar>" using eq AB by linarith
      then have "even R"
        unfolding B_def SR_def by (rule tie) (simp add: R)
      with odd R show False by simp
    qed
  qed
qed

text \<open>From magnitudes to signed values.\<close>

lemma nearest_signed:
  fixes a b u :: nat and s t :: real
  assumes "\<bar>int a - int u\<bar> \<le> \<bar>int b - int u\<bar>" and "s = 1 \<or> s = - 1" and "t = 1 \<or> t = - 1"
  shows "\<bar>s * real a - s * real u\<bar> \<le> \<bar>t * real b - s * real u\<bar>"
proof -
  have "real_of_int \<bar>int a - int u\<bar> \<le> real_of_int \<bar>int b - int u\<bar>"
    using assms(1) by (simp only: of_int_le_iff)
  then have "\<bar>real a - real u\<bar> \<le> \<bar>real b - real u\<bar>" by simp
  with assms(2,3) show ?thesis by (elim disjE) auto
qed

lemma tie_signed:
  fixes a b u :: nat and s t :: real
  assumes st: "s = 1 \<or> s = - 1" "t = 1 \<or> t = - 1"
    and eq: "\<bar>t * real b - s * real u\<bar> = \<bar>s * real a - s * real u\<bar>"
    and ne: "t * real b \<noteq> s * real a"
    and z: "\<bar>int a - int u\<bar> \<le> \<bar>int 0 - int u\<bar>"
  shows "(\<bar>int b - int u\<bar> = \<bar>int a - int u\<bar> \<and> b \<noteq> a) \<or>
         (\<bar>int 0 - int u\<bar> = \<bar>int a - int u\<bar> \<and> a \<noteq> 0)"
proof (cases "s = t")
  case True
  with st eq have "\<bar>real b - real u\<bar> = \<bar>real a - real u\<bar>" by auto
  then have "real_of_int \<bar>int b - int u\<bar> = real_of_int \<bar>int a - int u\<bar>" by simp
  then have "\<bar>int b - int u\<bar> = \<bar>int a - int u\<bar>" by (simp only: of_int_eq_iff)
  moreover from True ne st have "b \<noteq> a" by auto
  ultimately show ?thesis by simp
next
  case False
  with st eq have e: "real b + real u = \<bar>real a - real u\<bar>" by auto
  have "real_of_int \<bar>int a - int u\<bar> \<le> real_of_int \<bar>int 0 - int u\<bar>"
    using z by (simp only: of_int_le_iff)
  then have zr: "\<bar>real a - real u\<bar> \<le> real u" by simp
  with e have b: "b = 0" and au: "\<bar>real a - real u\<bar> = real u" by linarith+
  from ne b have "a \<noteq> 0" using st by auto
  moreover have "real_of_int \<bar>int 0 - int u\<bar> = real_of_int \<bar>int a - int u\<bar>"
    using au by simp
  then have "\<bar>int 0 - int u\<bar> = \<bar>int a - int u\<bar>" by (simp only: of_int_eq_iff)
  ultimately show ?thesis by simp
qed

lemma value32_grid:
  "value32 v =
     (if sign32 v = 0 then 1 else - 1) *
     real (unit_index 23 (exponent32 v * 2 ^ 23 + fraction32 v) * 2 ^ 925) / 2 ^ 1074"
proof -
  have u: "unit_index 23 (exponent32 v * 2 ^ 23 + fraction32 v) =
      magnitude 23 (exponent32 v) (fraction32 v)"
    by (rule unit_index_fields [OF fraction32_less])
  have "(if sign32 v = 0 then 1 else - 1) *
      (real (magnitude 23 (exponent32 v) (fraction32 v) * 2 ^ 925) / 2 ^ 1074) =
      (if sign32 v = 0 then 1 else - 1) *
      (real (magnitude 23 (exponent32 v) (fraction32 v)) / 2 ^ 149)"
    by (simp only: scale_value)
  then show ?thesis
    by (simp only: value32_def u times_divide_eq_right)
qed

lemma threshold_iff:
  "2 ^ 128 - 2 ^ 103 \<le> \<bar>value64 x\<bar> \<longleftrightarrow>
   2 ^ 1202 - 2 ^ 1177 \<le> magnitude 52 (exponent64 x) (fraction64 x)"
proof -
  define u where "u = magnitude 52 (exponent64 x) (fraction64 x)"
  have a: "\<bar>value64 x\<bar> = real u / 2 ^ 1074"
    by (simp add: value64_def u_def abs_mult)
  have t: "(2 ^ 128 - 2 ^ 103 :: real) = real (2 ^ 1202 - 2 ^ 1177) / 2 ^ 1074"
    by simp
  have "2 ^ 128 - 2 ^ 103 \<le> \<bar>value64 x\<bar> \<longleftrightarrow>
      real (2 ^ 1202 - 2 ^ 1177) / 2 ^ 1074 \<le> real u / 2 ^ 1074"
    by (simp only: a t)
  also have "\<dots> \<longleftrightarrow> real (2 ^ 1202 - 2 ^ 1177) \<le> real u"
    by (simp add: divide_le_cancel del: of_nat_diff of_nat_power)
  also have "\<dots> \<longleftrightarrow> 2 ^ 1202 - 2 ^ 1177 \<le> u"
    by (simp only: of_nat_le_iff)
  finally show ?thesis by (simp only: u_def)
qed

lemma sign_factor: "(if s = (0::nat) then 1 else - 1 :: real) = 1 \<or> (if s = 0 then 1 else - 1 :: real) = - 1"
  by simp

lemma finite_rounding:
  fixes x :: "64 word" and w :: "32 word" and R :: nat
  defines "u \<equiv> magnitude 52 (exponent64 x) (fraction64 x)"
  assumes fin: "exponent64 x \<noteq> 2047"
    and sgn: "sign32 w = sign64 x"
    and ex: "exponent32 w = min R (255 * 2 ^ 23) div 2 ^ 23"
    and fr: "fraction32 w = min R (255 * 2 ^ 23) mod 2 ^ 23"
    and near: "\<And>k. \<bar>int (unit_index 23 R * 2 ^ 925) - int u\<bar>
                       \<le> \<bar>int (unit_index 23 k * 2 ^ 925) - int u\<bar>"
    and tie: "\<And>k. \<bar>int (unit_index 23 k * 2 ^ 925) - int u\<bar> =
                   \<bar>int (unit_index 23 R * 2 ^ 925) - int u\<bar> \<Longrightarrow> k \<noteq> R \<Longrightarrow> even R"
  shows "single_rounding x w"
proof -
  have ov: "255 * 2 ^ 23 \<le> R \<longleftrightarrow> 2 ^ 1202 - 2 ^ 1177 \<le> u"
  proof (rule overflow_iff)
    fix k
    show "\<bar>int (unit_index 23 R * 2 ^ 925) - int u\<bar>
            \<le> \<bar>int (unit_index 23 k * 2 ^ 925) - int u\<bar>"
      by (rule near)
  next
    fix k
    assume "\<bar>int (unit_index 23 k * 2 ^ 925) - int u\<bar> =
            \<bar>int (unit_index 23 R * 2 ^ 925) - int u\<bar>" "k \<noteq> R"
    then show "even R" by (rule tie)
  qed
  have thr: "2 ^ 128 - 2 ^ 103 \<le> \<bar>value64 x\<bar> \<longleftrightarrow> 255 * 2 ^ 23 \<le> R"
    unfolding threshold_iff using ov by (simp only: u_def)
  from fin have nn: "\<not> nan64 x" "\<not> infinite64 x"
    by (simp_all add: nan64_def infinite64_def)
  show ?thesis
  proof (cases "255 * 2 ^ 23 \<le> R")
    case True
    then have "min R (255 * 2 ^ 23) = 255 * 2 ^ 23" by simp
    with ex fr have "infinite32 w" by (simp add: infinite32_def)
    with True thr nn sgn show ?thesis by (simp add: single_rounding_def)
  next
    case False
    then have m: "min R (255 * 2 ^ 23) = R" and lt: "R < 255 * 2 ^ 23" by simp_all
    from lt have "R div 2 ^ 23 < 255" by (simp add: less_mult_imp_div_less)
    with ex m have finw: "finite32 w" by (simp add: finite32_def)
    have idx: "exponent32 w * 2 ^ 23 + fraction32 w = R"
      by (simp only: ex fr m div_mult_mod_eq)
    define a where "a = unit_index 23 R * 2 ^ 925"
    define s :: real where "s = (if sign64 x = 0 then 1 else - 1)"
    define D :: real where "D = 2 ^ 1074"
    have D: "0 < D" by (simp add: D_def)
    have s: "s = 1 \<or> s = - 1" unfolding s_def by (rule sign_factor)
    have vw: "value32 w = s * real a / D"
      by (simp only: value32_grid idx sgn a_def s_def D_def)
    have vx: "value64 x = s * real u / D"
      by (simp only: value64_def u_def s_def D_def)
    have dw: "\<bar>value32 w - value64 x\<bar> = \<bar>s * real a - s * real u\<bar> / D"
      using D by (simp add: vw vx diff_divide_distrib [symmetric] del: of_nat_mult)
    have each: "\<bar>value32 w - value64 x\<bar> \<le> \<bar>value32 v - value64 x\<bar> \<and>
        (value32 v \<noteq> value32 w \<and> \<bar>value32 v - value64 x\<bar> = \<bar>value32 w - value64 x\<bar>
           \<longrightarrow> even (fraction32 w))" for v
    proof -
      define k where "k = exponent32 v * 2 ^ 23 + fraction32 v"
      define b where "b = unit_index 23 k * 2 ^ 925"
      define t :: real where "t = (if sign32 v = 0 then 1 else - 1)"
      have t: "t = 1 \<or> t = - 1" unfolding t_def by (rule sign_factor)
      have vv: "value32 v = t * real b / D"
        by (simp only: value32_grid k_def b_def t_def D_def)
      have dv: "\<bar>value32 v - value64 x\<bar> = \<bar>t * real b - s * real u\<bar> / D"
        using D by (simp add: vv vx diff_divide_distrib [symmetric] del: of_nat_mult)
      have nk: "\<bar>int a - int u\<bar> \<le> \<bar>int b - int u\<bar>"
        unfolding a_def b_def by (rule near)
      from nearest_signed [OF nk s t] D
      have le: "\<bar>value32 w - value64 x\<bar> \<le> \<bar>value32 v - value64 x\<bar>"
        unfolding dw dv by (simp add: divide_right_mono)
      have ev: "even (fraction32 w)"
        if ne: "value32 v \<noteq> value32 w"
          and eq: "\<bar>value32 v - value64 x\<bar> = \<bar>value32 w - value64 x\<bar>"
      proof -
        from eq D have eq': "\<bar>t * real b - s * real u\<bar> = \<bar>s * real a - s * real u\<bar>"
          unfolding dw dv by simp
        from ne D have ne': "t * real b \<noteq> s * real a"
          unfolding vw vv by auto
        have z: "\<bar>int a - int u\<bar> \<le> \<bar>int 0 - int u\<bar>"
          using near [of 0] by (simp add: a_def unit_index_def magnitude_def)
        from tie_signed [OF s t eq' ne' z]
        have "even R"
        proof
          assume c: "\<bar>int b - int u\<bar> = \<bar>int a - int u\<bar> \<and> b \<noteq> a"
          then have "k \<noteq> R" by (auto simp: a_def b_def)
          with c show ?thesis
            using tie [of k] by (simp add: a_def b_def)
        next
          assume c: "\<bar>int 0 - int u\<bar> = \<bar>int a - int u\<bar> \<and> a \<noteq> 0"
          have z0: "unit_index 23 0 = 0" by (simp add: unit_index_def magnitude_def)
          have "0 \<noteq> R"
          proof
            assume "0 = R"
            then have "R = 0" by simp
            then have "a = 0" unfolding a_def by (simp add: z0)
            with c show False by simp
          qed
          with c show ?thesis
            using tie [of 0] by (simp add: a_def z0)
        qed
        moreover have "(2::nat) dvd 2 ^ 23" by simp
        ultimately show ?thesis
          unfolding fr m by (simp only: dvd_mod_iff)
      qed
      from le ev show ?thesis by blast
    qed
    from each finw have "nearest_single (value64 x) w"
      unfolding nearest_single_def by blast
    with False thr nn sgn show ?thesis by (simp add: single_rounding_def)
  qed
qed

text \<open>\<open>np_float32\<close> rounds to single precision, and \<open>py_float\<close> widens exactly.\<close>

lemma np_float32_rounding: "single_rounding x (np_float32 x)"
proof -
  consider (special) "exponent64 x = 2047"
    | (large) "897 \<le> exponent64 x" "exponent64 x \<noteq> 2047"
    | (small) "exponent64 x < 897" by linarith
  then show ?thesis
  proof cases
    case special
    show ?thesis
    proof (cases "fraction64 x = 0")
      case True
      with np_float32_inf [OF special True] special show ?thesis
        by (simp add: single_rounding_def nan64_def infinite64_def infinite32_def)
    next
      case False
      with np_float32_nan [OF special False] special show ?thesis
        by (simp add: single_rounding_def nan64_def nan32_def)
    qed
  next
    case large
    define R where "R = round_even ((exponent64 x - 896) * 2 ^ 23 + fraction64 x div 2 ^ 29)
                        (fraction64 x mod 2 ^ 29) (2 ^ 28)"
    note f = np_float32_large [OF large, folded R_def]
    note n = nearest_large [OF large(1) fraction64_less [of x], folded R_def]
    from f n show ?thesis
      by (intro finite_rounding [OF large(2), of _ R]) simp_all
  next
    case small
    define sig where "sig = (if exponent64 x = 0 then fraction64 x else 2 ^ 52 + fraction64 x)"
    define sh where "sh = (if exponent64 x = 0 then 925 else 926 - exponent64 x)"
    define R where "R = round_even (sig div 2 ^ sh) (sig mod 2 ^ sh) (2 ^ (sh - 1))"
    note f = np_float32_small [OF small, folded sig_def sh_def, folded R_def]
    note n = nearest_small [OF small fraction64_less [of x], folded sig_def sh_def, folded R_def]
    from f have m: "min R (255 * 2 ^ 23) = R" by simp
    from small have fin: "exponent64 x \<noteq> 2047" by simp
    from f n show ?thesis
      by (intro finite_rounding [OF fin, of _ R]) (simp_all only: m)
  qed
qed

lemma py_float_np_float32_rounded: "rounded_to_single x (py_float (np_float32 x))"
  unfolding rounded_to_single_def
  using np_float32_rounding py_float_widened by blast

lemma value64_inj:
  assumes "exponent64 x \<noteq> 2047" "exponent64 y \<noteq> 2047"
    and s: "sign64 x = sign64 y" and v: "value64 x = value64 y"
  shows "x = y"
proof -
  define ux where "ux = magnitude 52 (exponent64 x) (fraction64 x)"
  define uy where "uy = magnitude 52 (exponent64 y) (fraction64 y)"
  from v s have "real ux = real uy"
    by (simp add: value64_def ux_def uy_def split: if_splits)
  then have "ux = uy" by simp
  then have "unit_index 52 (exponent64 x * 2 ^ 52 + fraction64 x) =
      unit_index 52 (exponent64 y * 2 ^ 52 + fraction64 y)"
    by (simp only: ux_def uy_def unit_index_fields [OF fraction64_less])
  then have eq: "exponent64 x * 2 ^ 52 + fraction64 x = exponent64 y * 2 ^ 52 + fraction64 y"
    by (rule unit_index_inj)
  have "exponent64 x = exponent64 y"
    using fields_of_sum(1) [OF fraction64_less, of "exponent64 x" x]
      fields_of_sum(1) [OF fraction64_less, of "exponent64 y" y]
    by (simp only: eq)
  moreover have "fraction64 x = fraction64 y"
    using fields_of_sum(2) [OF fraction64_less, of "exponent64 x" x]
      fields_of_sum(2) [OF fraction64_less, of "exponent64 y" y]
    by (simp only: eq)
  ultimately show ?thesis using s by (intro word64_eqI)
qed

lemma finite32_bound:
  assumes "finite32 w"
  shows "\<bar>value32 w\<bar> < 2 ^ 128 - 2 ^ 103"
proof -
  define k where "k = exponent32 w * 2 ^ 23 + fraction32 w"
  from assms have "exponent32 w < 255"
    using exponent32_less [of w] by (simp add: finite32_def)
  then have "exponent32 w * 2 ^ 23 + fraction32 w < 254 * 2 ^ 23 + 2 ^ 23"
    using fraction32_less [of w] by (intro add_le_less_mono mult_right_mono) simp_all
  then have "k \<le> 255 * 2 ^ 23 - 1" by (simp add: k_def)
  then have "unit_index 23 k \<le> unit_index 23 (255 * 2 ^ 23 - 1)" by (rule unit_index_mono)
  then have "unit_index 23 k * 2 ^ 925 \<le> unit_index 23 (255 * 2 ^ 23 - 1) * 2 ^ 925"
    by (rule mult_right_mono) simp
  then have le: "unit_index 23 k * 2 ^ 925 \<le> 2 ^ 1202 - 2 ^ 1178"
    by (simp only: grid_max)
  have "\<bar>value32 w\<bar> = real (unit_index 23 k * 2 ^ 925) / 2 ^ 1074"
    by (simp add: value32_grid k_def abs_mult del: of_nat_mult)
  also have "\<dots> \<le> real (2 ^ 1202 - 2 ^ 1178) / 2 ^ 1074"
    using le by (intro divide_right_mono) (simp_all only: of_nat_le_iff, simp)
  also have "\<dots> < 2 ^ 128 - 2 ^ 103" by simp
  finally show ?thesis .
qed

lemma single_exact_round_trip:
  assumes "single_exact x"
  shows "py_float (np_float32 x) = x"
proof (cases "exponent64 x = 2047")
  case True
  with assms have f: "fraction64 x = 0"
    by (auto simp: single_exact_def nan64_def infinite64_def)
  note n = np_float32_inf [OF True f]
  from n have e: "exponent32 (np_float32 x) = 255" by simp
  note p = py_float_special [OF e]
  from n p True f show ?thesis by (intro word64_eqI) simp_all
next
  case False
  with assms obtain w where w: "finite32 w" "value32 w = value64 x"
    by (auto simp: single_exact_def infinite64_def)
  from finite32_bound [OF w(1)] w(2) have b: "\<not> 2 ^ 128 - 2 ^ 103 \<le> \<bar>value64 x\<bar>" by simp
  from False have nn: "\<not> nan64 x" "\<not> infinite64 x"
    by (simp_all add: nan64_def infinite64_def)
  from np_float32_rounding [of x] nn b
  have sg: "sign32 (np_float32 x) = sign64 x" and nr: "nearest_single (value64 x) (np_float32 x)"
    by (simp_all add: single_rounding_def)
  from nr have fin: "finite32 (np_float32 x)"
    and le: "\<bar>value32 (np_float32 x) - value64 x\<bar> \<le> \<bar>value32 w - value64 x\<bar>"
    using w(1) by (simp_all add: nearest_single_def)
  from le w(2) have v: "value32 (np_float32 x) = value64 x" by simp
  from fin have "\<not> nan32 (np_float32 x)" "\<not> infinite32 (np_float32 x)"
    by (simp_all add: finite32_def nan32_def infinite32_def)
  with py_float_widened [of "np_float32 x"]
  have wd: "sign64 (py_float (np_float32 x)) = sign32 (np_float32 x)"
    "finite64 (py_float (np_float32 x))"
    "value64 (py_float (np_float32 x)) = value32 (np_float32 x)"
    by (simp_all add: widened_def)
  from wd(2) have "exponent64 (py_float (np_float32 x)) \<noteq> 2047" by (simp add: finite64_def)
  from value64_inj [OF this False] wd sg v show ?thesis by simp
qed

section \<open>Properties of the point codec\<close>

lemma item_tobytes: "item (ucast w) (ucast (drop_bit 8 w)) (ucast (drop_bit 16 w)) (ucast (drop_bit 24 w)) = w"
proof (rule bit_word_eqI)
  fix n :: nat
  assume n: "n < LENGTH(32)"
  consider "n < 8" | "8 \<le> n" "n < 16" | "16 \<le> n" "n < 24" | "24 \<le> n" "n < 32"
    using n by fastforce
  then show "bit (item (ucast w) (ucast (drop_bit 8 w)) (ucast (drop_bit 16 w))
                 (ucast (drop_bit 24 w))) n \<longleftrightarrow> bit w n"
  proof cases
    case 1
    then show ?thesis by (simp add: item_def bit_simps)
  next
    case 2
    then show ?thesis by (auto simp: item_def bit_simps)
  next
    case 3
    then show ?thesis by (auto simp: item_def bit_simps)
  next
    case 4
    then show ?thesis by (auto simp: item_def bit_simps)
  qed
qed

lemma items_tobytes: "items (tobytes w @ rest) = w # items rest"
  by (simp add: tobytes_def item_tobytes)

lemma decompress_compress:
  "decompress_gps_point (compress_gps_point p) = Inr (single_rounded p)"
  by (simp add: decompress_gps_point_def compress_gps_point_def frombuffer_def
      items_tobytes getitem_def single_rounded_def tobytes_def item_tobytes)

lemma length_compress: "length (compress_gps_point p) = 20"
  by (simp add: compress_gps_point_def tobytes_def)

lemma length_items: "length (items data) = length data div 4"
  by (induction data rule: items.induct) simp_all

lemma items_append:
  "length xs mod 4 = 0 \<Longrightarrow> items (xs @ ys) = items xs @ items ys"
  by (induction xs rule: items.induct) simp_all

lemma decompress_items:
  "length data mod 4 = 0 \<Longrightarrow> 5 \<le> length (items data) \<Longrightarrow>
   decompress_gps_point data =
     Inr \<lparr>lat = py_float (items data ! 0), lng = py_float (items data ! 1),
          timestamp = py_float (items data ! 2), point_speed = py_float (items data ! 3),
          direction = py_float (items data ! 4)\<rparr>"
  by (auto simp: decompress_gps_point_def frombuffer_def getitem_def)

lemma decompress_ragged:
  "length data mod 4 \<noteq> 0 \<Longrightarrow> decompress_gps_point data = Inl ValueError"
  by (simp add: decompress_gps_point_def frombuffer_def)

lemma decompress_short:
  assumes "length data mod 4 = 0" and "length data < 20"
  shows "decompress_gps_point data = Inl IndexError"
proof -
  from assms have "length (items data) < 5" by (simp add: length_items)
  with assms show ?thesis
    by (simp add: decompress_gps_point_def frombuffer_def getitem_def)
qed

lemma decompress_take_20:
  assumes "length data mod 4 = 0" and "20 \<le> length data"
  shows "decompress_gps_point (take 20 data) = decompress_gps_point data"
proof -
  from assms have five: "5 \<le> length (items data)"
    unfolding length_items by presburger
  have len: "length (take 20 data) = 20" using assms by simp
  then have five': "length (items (take 20 data)) = 5" by (simp add: length_items)
  have "items (take 20 data @ drop 20 data) = items (take 20 data) @ items (drop 20 data)"
    by (rule items_append) (simp only: len, simp)
  then have split: "items data = items (take 20 data) @ items (drop 20 data)" by simp
  have nth: "items data ! i = items (take 20 data) ! i" if "i < 5" for i
    using that five' by (simp add: split nth_append)
  have "decompress_gps_point (take 20 data) =
     Inr \<lparr>lat = py_float (items data ! 0), lng = py_float (items data ! 1),
          timestamp = py_float (items data ! 2), point_speed = py_float (items data ! 3),
          direction = py_float (items data ! 4)\<rparr>"
    using five' len by (simp add: decompress_items nth)
  with assms five show ?thesis by (simp add: decompress_items)
qed

text \<open>
  C5 (as the code has it). Decoding has no length check of its own. A block whose length is
  not a multiple of 4 or is below 20 bytes is rejected: \<^verbatim>\<open>np.frombuffer\<close> raises
  \<^verbatim>\<open>ValueError\<close> on the first, an index raises \<^verbatim>\<open>IndexError\<close> on the second. A
  block of 20 bytes or more whose length is a multiple of 4 is decoded, from its first 20
  bytes.
\<close>

theorem decompress_rejects_ragged_or_short:
  "(length data mod 4 \<noteq> 0 \<or> length data < 20 \<longrightarrow>
      (\<exists>e. decompress_gps_point data = Inl e)) \<and>
   (length data mod 4 = 0 \<and> 20 \<le> length data \<longrightarrow>
      (\<exists>point. decompress_gps_point data = Inr point \<and>
         decompress_gps_point (take 20 data) = Inr point))"
proof (intro conjI impI)
  assume "length data mod 4 \<noteq> 0 \<or> length data < 20"
  then show "\<exists>e. decompress_gps_point data = Inl e"
    using decompress_ragged [of data] decompress_short [of data] by blast
next
  assume a: "length data mod 4 = 0 \<and> 20 \<le> length data"
  then have "5 \<le> length (items data)"
    unfolding length_items by presburger
  with a have "\<exists>point. decompress_gps_point data = Inr point"
    by (simp add: decompress_items)
  with a show "\<exists>point. decompress_gps_point data = Inr point \<and>
         decompress_gps_point (take 20 data) = Inr point"
    by (simp add: decompress_take_20)
qed

lemmas float_eval = np_float32_def py_float_def round_even_def Let_def

lemma single_rounded_beijing_point: "single_rounded beijing_point = beijing_point"
  by (simp add: single_rounded_def beijing_point_def float_eval)

lemma decompress_compress_append:
  assumes "length extra mod 4 = 0"
  shows "decompress_gps_point (compress_gps_point p @ extra) = Inr (single_rounded p)"
proof -
  have "items (compress_gps_point p @ extra) = items (compress_gps_point p) @ items extra"
    by (rule items_append) (simp add: length_compress)
  moreover have "items (compress_gps_point p) =
      [np_float32 (lat p), np_float32 (lng p), np_float32 (timestamp p),
       np_float32 (point_speed p), np_float32 (direction p)]"
    by (simp add: compress_gps_point_def tobytes_def item_tobytes)
  moreover from assms have "(20 + length extra) mod 4 = 0" by presburger
  ultimately show ?thesis
    by (simp add: decompress_gps_point_def frombuffer_def getitem_def length_compress
        single_rounded_def)
qed

text \<open>
  C5 as stated fails: a block of 24 bytes, an encoded point followed by four more bytes, is
  not 20 bytes long and is decoded to a point.
\<close>

theorem decompress_24_bytes_counterexample:
  "length (compress_gps_point beijing_point @ [0, 0, 0, 0]) = 24 \<and>
   decompress_gps_point (compress_gps_point beijing_point @ [0, 0, 0, 0]) = Inr beijing_point"
  by (simp add: length_compress decompress_compress_append single_rounded_beijing_point)

text \<open>Blocks of 19, 16 and 24 bytes: rejected, rejected, decoded from the first 20.\<close>

theorem decompress_rejects_ragged_or_short_witness:
  "length (take 19 (compress_gps_point beijing_point)) mod 4 = 3 \<and>
   (\<exists>e. decompress_gps_point (take 19 (compress_gps_point beijing_point)) = Inl e) \<and>
   length (take 16 (compress_gps_point beijing_point)) = 16 \<and>
   (\<exists>e. decompress_gps_point (take 16 (compress_gps_point beijing_point)) = Inl e) \<and>
   length (compress_gps_point beijing_point @ [0, 0, 0, 0]) = 24 \<and>
   (\<exists>point. decompress_gps_point (compress_gps_point beijing_point @ [0, 0, 0, 0]) = Inr point \<and>
      decompress_gps_point (take 20 (compress_gps_point beijing_point @ [0, 0, 0, 0]))
        = Inr point)"
  using decompress_rejects_ragged_or_short [of "take 19 (compress_gps_point beijing_point)"]
    decompress_rejects_ragged_or_short [of "take 16 (compress_gps_point beijing_point)"]
    decompress_rejects_ragged_or_short [of "compress_gps_point beijing_point @ [0, 0, 0, 0]"]
  by (simp add: length_compress)

lemma single_exactI:
  assumes "py_float (np_float32 x) = x" and "finite32 (np_float32 x)"
  shows "single_exact x"
proof -
  from assms(2) have "\<not> nan32 (np_float32 x)" "\<not> infinite32 (np_float32 x)"
    by (simp_all add: finite32_def nan32_def infinite32_def)
  with py_float_widened [of "np_float32 x"] assms(1)
  have "finite64 x" "value64 x = value32 (np_float32 x)"
    by (simp_all add: widened_def)
  with assms(2) show ?thesis
    by (auto simp: single_exact_def nan64_def finite64_def)
qed

lemma beijing_point_exact:
  "single_exact (lat beijing_point)" "single_exact (lng beijing_point)"
  "single_exact (timestamp beijing_point)" "single_exact (point_speed beijing_point)"
  "single_exact (direction beijing_point)"
  by (rule single_exactI; simp add: beijing_point_def finite32_def exponent32_def float_eval)+

text \<open>
  The latitude 39.9042 is not exact in single precision: the two singles next to it are
  39.90419769287109375 below and 39.904201507568359375 above. Encoding and decoding
  gives the one above, which is the nearer.
\<close>

lemma decompress_compress_tiananmen_point:
  "decompress_gps_point (compress_gps_point tiananmen_point) =
     Inr (beijing_point\<lparr>lat := 0x4043F3BCE0000000\<rparr>)"
proof -
  have "py_float (np_float32 0x4043F3BCD35A8588) = 0x4043F3BCE0000000"
    by (simp add: float_eval)
  moreover have
    "py_float (np_float32 (lng beijing_point)) = lng beijing_point"
    "py_float (np_float32 (timestamp beijing_point)) = timestamp beijing_point"
    "py_float (np_float32 (point_speed beijing_point)) = point_speed beijing_point"
    "py_float (np_float32 (direction beijing_point)) = direction beijing_point"
    by (simp_all add: beijing_point_def float_eval)
  ultimately show ?thesis
    by (simp add: decompress_compress single_rounded_def tiananmen_point_def)
qed

lemma tiananmen_latitude_between:
  "value64 0x4043F3BCC0000000 < value64 (lat tiananmen_point)"
  "value64 (lat tiananmen_point) < value64 0x4043F3BCE0000000"
  "value64 0x4043F3BCE0000000 - value64 (lat tiananmen_point)
     < value64 (lat tiananmen_point) - value64 0x4043F3BCC0000000"
  by (simp_all add: tiananmen_point_def beijing_point_def value64_def sign64_def
      exponent64_def fraction64_def magnitude_def)

text \<open>
  C10. An encoded point is 20 bytes long. Decoding it yields a point, and each field of
  that point is the single-precision rounding of the field of the original: the value of
  the IEEE-754 single nearest to it, ties to even, with the sign kept, an infinity from
  the overflow threshold on and a NaN for a NaN. When all five fields of the original are
  exactly representable in single precision, the decoded point is the original.
\<close>

theorem compress_decompress_round_trip:
  "length (compress_gps_point point) = 20 \<and>
   (\<exists>q. decompress_gps_point (compress_gps_point point) = Inr q \<and>
        rounded_to_single (lat point) (lat q) \<and>
        rounded_to_single (lng point) (lng q) \<and>
        rounded_to_single (timestamp point) (timestamp q) \<and>
        rounded_to_single (point_speed point) (point_speed q) \<and>
        rounded_to_single (direction point) (direction q) \<and>
        (single_exact (lat point) \<and> single_exact (lng point) \<and>
         single_exact (timestamp point) \<and> single_exact (point_speed point) \<and>
         single_exact (direction point) \<longrightarrow> q = point))"
proof -
  have r: "rounded_to_single (lat point) (lat (single_rounded point))"
    "rounded_to_single (lng point) (lng (single_rounded point))"
    "rounded_to_single (timestamp point) (timestamp (single_rounded point))"
    "rounded_to_single (point_speed point) (point_speed (single_rounded point))"
    "rounded_to_single (direction point) (direction (single_rounded point))"
    by (simp_all add: single_rounded_def py_float_np_float32_rounded)
  have e: "single_rounded point = point"
    if "single_exact (lat point) \<and> single_exact (lng point) \<and>
         single_exact (timestamp point) \<and> single_exact (point_speed point) \<and>
         single_exact (direction point)"
    using that by (simp add: single_rounded_def single_exact_round_trip)
  from r e show ?thesis
    by (simp add: length_compress decompress_compress)
qed

text \<open>
  C10 at the Beijing point, whose five fields are exact and which is decoded to itself,
  and at the same point with latitude 39.9042, whose latitude is decoded to the single
  above it, the nearer of its two neighbours.
\<close>

theorem compress_decompress_round_trip_witness:
  "single_exact (lat beijing_point) \<and> single_exact (lng beijing_point) \<and>
   single_exact (timestamp beijing_point) \<and> single_exact (point_speed beijing_point) \<and>
   single_exact (direction beijing_point) \<and>
   decompress_gps_point (compress_gps_point beijing_point) = Inr beijing_point \<and>
   decompress_gps_point (compress_gps_point tiananmen_point) =
     Inr (beijing_point\<lparr>lat := 0x4043F3BCE0000000\<rparr>) \<and>
   rounded_to_single (lat tiananmen_point) 0x4043F3BCE0000000 \<and>
   value64 (lat tiananmen_point) < value64 0x4043F3BCE0000000 \<and>
   value64 0x4043F3BCE0000000 - value64 (lat tiananmen_point)
     < value64 (lat tiananmen_point) - value64 0x4043F3BCC0000000"
proof -
  from compress_decompress_round_trip [of beijing_point] beijing_point_exact
  have b: "decompress_gps_point (compress_gps_point beijing_point) = Inr beijing_point"
    by auto
  from compress_decompress_round_trip [of tiananmen_point]
  obtain q where q: "decompress_gps_point (compress_gps_point tiananmen_point) = Inr q"
    and l: "rounded_to_single (lat tiananmen_point) (lat q)"
    by blast
  from q have "q = beijing_point\<lparr>lat := 0x4043F3BCE0000000\<rparr>"
    by (simp add: decompress_compress_tiananmen_point)
  with l have t: "rounded_to_single (lat tiananmen_point) 0x4043F3BCE0000000" by simp
  from b t beijing_point_exact decompress_compress_tiananmen_point tiananmen_latitude_between
  show ?thesis by simp
qed

section \<open>Properties of the cache\<close>

text \<open>
  The call of \<^verbatim>\<open>geoadd\<close> in the flush raises whatever the point and the vehicle:
  \<^verbatim>\<open>DataError\<close> when the latitude is not zero and the vehicle id not empty, and
  otherwise \<^verbatim>\<open>TypeError\<close>, from \<^verbatim>\<open>len\<close> of the longitude.
\<close>

lemma geoadd_raises:
  "geoadd name (Float x) (Float y) (Str vid) =
     Inl (if y \<noteq> 0 \<and> y \<noteq> 0x8000000000000000 \<and> vid \<noteq> [] then DataError else TypeError)"
  by (simp add: geoadd_def truthy_def py_len_def)

lemma queue_vehicle_raises:
  "snd entry \<noteq> [] \<Longrightarrow> \<exists>e. queue_vehicle pipe entry = Inl e"
  by (simp add: queue_vehicle_def geoadd_raises Let_def)

lemma queue_vehicle_returns:
  "queue_vehicle pipe entry = Inr pipe' \<Longrightarrow> pipe' = pipe"
  by (auto simp: queue_vehicle_def geoadd_raises Let_def split: if_splits)

lemma queue_buffer_returns:
  "queue_buffer pipe buf = Inr pipe' \<Longrightarrow> pipe' = pipe"
proof (induction buf arbitrary: pipe)
  case Nil
  then show ?case by simp
next
  case (Cons entry buf)
  from Cons.prems obtain pipe1 where
    q: "queue_vehicle pipe entry = Inr pipe1" and r: "queue_buffer pipe1 buf = Inr pipe'"
    by (auto split: sum.splits)
  from queue_vehicle_returns [OF q] Cons.IH [OF r] show ?case by simp
qed

text \<open>
  So a flush never writes: whatever the buffer holds, the store after
  \<^verbatim>\<open>_flush_write_buffer\<close> is the store before it, and so it is after \<^verbatim>\<open>cache_gps_point\<close>.
\<close>

lemma flush_write_buffer_store: "snd (snd (flush_write_buffer s)) = snd s"
proof (cases "queue_buffer [] (write_buffer (fst s))")
  case (Inl e)
  then show ?thesis by (simp add: flush_write_buffer_def Let_def)
next
  case (Inr pipe)
  from queue_buffer_returns [OF this] Inr show ?thesis
    by (simp add: flush_write_buffer_def Let_def pipe_execute_def)
qed

lemma cache_gps_point_store: "snd (snd (cache_gps_point vid gps_point s)) = snd s"
  by (simp add: cache_gps_point_def Let_def flush_write_buffer_store)

lemma cache_run_snoc: "cache_run (ops @ [op]) = cache_step (cache_run ops) op"
  by (simp add: cache_run_def)

text \<open>
  After any sequence of accepted points and background flushes the store is empty: no track
  list has received a point.
\<close>

lemma cache_run_store: "snd (cache_run ops) = empty_redis"
proof (induction ops rule: rev_induct)
  case Nil
  show ?case by (simp add: cache_run_def cache_init_def)
next
  case (snoc op ops)
  then show ?case
    by (cases op) (simp_all add: cache_run_snoc cache_gps_point_store flush_write_buffer_store)
qed

lemma dict_get_Nil [simp]: "dict_get [] k = []"
  by (simp add: dict_get_def)

lemma dict_append_nonempty: "dict_append d k v \<noteq> []"
  by (cases d) (auto split: if_splits)

text \<open>A flush of a buffer with a point in its first entry raises and leaves the state.\<close>

lemma flush_write_buffer_raises:
  assumes "write_buffer c = (vid, pts) # rest" and "pts \<noteq> []"
  shows "flush_write_buffer (c, r) =
     (Some (if lat (last pts) \<noteq> 0 \<and> lat (last pts) \<noteq> 0x8000000000000000 \<and> vid \<noteq> []
            then DataError else TypeError), c, r)"
  using assms
  by (simp add: flush_write_buffer_def queue_vehicle_def geoadd_raises Let_def)

text \<open>Points for one vehicle are buffered without a flush as long as they are fewer than 50.\<close>

lemma cache_steps_below_batch_size:
  "length pts + n < 50 \<Longrightarrow>
   foldl cache_step (\<lparr>write_buffer = [(vid, pts)], write_count = 0\<rparr>, empty_redis)
     (replicate n (CachePoint vid p)) =
   (\<lparr>write_buffer = [(vid, pts @ replicate n p)], write_count = 0\<rparr>, empty_redis)"
proof (induction n arbitrary: pts)
  case 0
  show ?case by simp
next
  case (Suc n)
  from Suc.prems have step: "cache_step
      (\<lparr>write_buffer = [(vid, pts)], write_count = 0\<rparr>, empty_redis) (CachePoint vid p) =
      (\<lparr>write_buffer = [(vid, pts @ [p])], write_count = 0\<rparr>, empty_redis)"
    by (simp add: cache_gps_point_def dict_get_def cache_batch_size_def Let_def)
  from Suc.prems have "length (pts @ [p]) + n < 50" by simp
  from Suc.IH [OF this] step show ?case by simp
qed

lemma cache_run_below_batch_size:
  assumes "n < 49"
  shows "cache_run (replicate (Suc n) (CachePoint vid p)) =
     (\<lparr>write_buffer = [(vid, replicate (Suc n) p)], write_count = 0\<rparr>, empty_redis)"
proof -
  have first: "cache_step cache_init (CachePoint vid p) =
      (\<lparr>write_buffer = [(vid, [p])], write_count = 0\<rparr>, empty_redis)"
    by (simp add: cache_init_def cache_gps_point_def dict_get_def cache_batch_size_def Let_def)
  from assms have "length [p] + n < 50" by simp
  from cache_steps_below_batch_size [OF this, of vid p] first show ?thesis
    by (simp add: cache_run_def)
qed

lemma replicate_49_append: "replicate 49 x @ [x] = replicate 50 x"
  using replicate_Suc [of 49 x] by (simp add: replicate_append_same)

text \<open>
  C8, at 50 points accepted for vehicle \<open>A\<close> in a row. After 49 of them the buffer
  holds the 49 points and the store is empty. The 50th brings the buffer to the batch size
  and the flush is tried; it raises \<^verbatim>\<open>DataError\<close> at the geo index, nothing is sent, the
  buffer keeps its 50 points, and the track list of \<open>A\<close> is still empty.
\<close>

theorem track_history_never_written:
  "cache_run (replicate 49 (CachePoint ''A'' beijing_point)) =
     (\<lparr>write_buffer = [(''A'', replicate 49 beijing_point)], write_count = 0\<rparr>, empty_redis) \<and>
   cache_gps_point ''A'' beijing_point
     (\<lparr>write_buffer = [(''A'', replicate 49 beijing_point)], write_count = 0\<rparr>, empty_redis) =
     (Some DataError,
      \<lparr>write_buffer = [(''A'', replicate 50 beijing_point)], write_count = 0\<rparr>, empty_redis) \<and>
   lists (snd (cache_run (replicate 50 (CachePoint ''A'' beijing_point)))) ''t:A'' = []"
proof -
  have r49: "cache_run (replicate 49 (CachePoint ''A'' beijing_point)) =
     (\<lparr>write_buffer = [(''A'', replicate 49 beijing_point)], write_count = 0\<rparr>, empty_redis)"
    using cache_run_below_batch_size [of 48 "''A''" beijing_point] by simp
  note app = replicate_49_append [of beijing_point]
  have ne: "replicate 50 beijing_point \<noteq> []" by simp
  have fl: "flush_write_buffer
      (\<lparr>write_buffer = [(''A'', replicate 50 beijing_point)], write_count = 0\<rparr>, empty_redis) =
      (Some DataError,
       \<lparr>write_buffer = [(''A'', replicate 50 beijing_point)], write_count = 0\<rparr>, empty_redis)"
    by (subst flush_write_buffer_raises [where vid = "''A''" and pts = "replicate 50 beijing_point"
          and rest = "[]"]) (simp_all add: beijing_point_def)
  have c50: "cache_gps_point ''A'' beijing_point
     (\<lparr>write_buffer = [(''A'', replicate 49 beijing_point)], write_count = 0\<rparr>, empty_redis) =
     (Some DataError,
      \<lparr>write_buffer = [(''A'', replicate 50 beijing_point)], write_count = 0\<rparr>, empty_redis)"
    by (simp add: cache_gps_point_def dict_get_def cache_batch_size_def Let_def app fl)
  have "lists (snd (cache_run (replicate 50 (CachePoint ''A'' beijing_point)))) ''t:A'' = []"
    by (simp add: cache_run_store empty_redis_def)
  with r49 c50 show ?thesis by simp
qed

text \<open>
  The same in the setting of C9: with one point of vehicle \<open>B\<close> waiting, the 50th point
  of vehicle \<open>A\<close> raises at the entry of \<open>B\<close>, and both vehicles keep their points in the
  buffer.
\<close>

lemma cache_gps_point_nearly_full:
  "cache_gps_point ''A'' beijing_point
     (\<lparr>write_buffer = [(''B'', [beijing_point]), (''A'', replicate 49 beijing_point)],
       write_count = 0\<rparr>, empty_redis) =
     (Some DataError,
      \<lparr>write_buffer = [(''B'', [beijing_point]), (''A'', replicate 50 beijing_point)],
        write_count = 0\<rparr>, empty_redis)"
proof -
  note app = replicate_49_append [of beijing_point]
  have fl: "flush_write_buffer
      (\<lparr>write_buffer = [(''B'', [beijing_point]), (''A'', replicate 50 beijing_point)],
         write_count = 0\<rparr>, empty_redis) =
      (Some DataError,
       \<lparr>write_buffer = [(''B'', [beijing_point]), (''A'', replicate 50 beijing_point)],
         write_count = 0\<rparr>, empty_redis)"
    by (subst flush_write_buffer_raises [where vid = "''B''" and pts = "[beijing_point]"
          and rest = "[(''A'', replicate 50 beijing_point)]"])
       (simp_all add: beijing_point_def)
  show ?thesis
    by (simp add: cache_gps_point_def dict_get_def cache_batch_size_def Let_def app fl)
qed
end
